theory Spec2Isabelle
  imports Main
begin

section \<open>Python values, errors and text\<close>

text \<open>
  The repository is dynamically typed Python. Parsed JSON and TOML documents, and the
  dictionaries the modules hand to each other, are values of one datatype; a dictionary
  keeps its entries in insertion order, with distinct keys, and is read with \<open>map_of\<close>.
  The type parameter \<open>'f\<close> stands for Python's floats, on which the code does no
  arithmetic.

  Text is an Isabelle \<open>string\<close>, read as 7-bit ASCII: every literal of the source is
  ASCII, and a character above 127 is taken as a symbol that is neither whitespace nor
  a cased letter.
\<close>

datatype 'f pyval =
    PNone
  | PBool bool
  | PInt int
  | PFloat 'f
  | PStr string
  | PList "'f pyval list"
  | PDict "(string \<times> 'f pyval) list"

text \<open>
  Every exception the modelled code can raise is an instance of Python's \<open>Exception\<close>.
  \<open>JSONDecodeError\<close> and \<open>TOMLDecodeError\<close> are subclasses of \<open>ValueError\<close>.
\<close>

datatype py_error =
    AttributeError
  | TypeError
  | KeyError
  | IndexError
  | ValueError
  | OverflowError
  | JSONDecodeError
  | TOMLDecodeError
  | ParseError
  | UnboundLocalError
  | HTTPError int
  | RequestException string

definition is_ValueError :: "py_error \<Rightarrow> bool" where
  "is_ValueError e = (e = ValueError \<or> e = JSONDecodeError \<or> e = TOMLDecodeError)"

definition then_do :: "'e + 'a \<Rightarrow> ('a \<Rightarrow> 'e + 'b) \<Rightarrow> 'e + 'b" where
  "then_do m f = (case m of Inl e \<Rightarrow> Inl e | Inr x \<Rightarrow> f x)"

fun map_err :: "('a \<Rightarrow> 'e + 'b) \<Rightarrow> 'a list \<Rightarrow> 'e + 'b list" where
  "map_err f [] = Inr []"
| "map_err f (x # xs) =
     (case f x of
        Inl e \<Rightarrow> Inl e
      | Inr y \<Rightarrow> (case map_err f xs of Inl e \<Rightarrow> Inl e | Inr ys \<Rightarrow> Inr (y # ys)))"

subsection \<open>String methods\<close>

text \<open>\<open>str.isspace\<close> on ASCII: tab, the line breaks, the separators FS..US and space.\<close>

definition py_isspace :: "char \<Rightarrow> bool" where
  "py_isspace c = (c \<in> set [CHR 0x09, CHR 0x0A, CHR 0x0B, CHR 0x0C, CHR 0x0D,
                             CHR 0x1C, CHR 0x1D, CHR 0x1E, CHR 0x1F, CHR 0x20])"

text \<open>\<open>s.strip()\<close>.\<close>

definition strip_where :: "(char \<Rightarrow> bool) \<Rightarrow> string \<Rightarrow> string" where
  "strip_where P s = rev (dropWhile P (rev (dropWhile P s)))"

definition py_strip :: "string \<Rightarrow> string" where
  "py_strip s = strip_where py_isspace s"

definition py_startswith :: "string \<Rightarrow> string \<Rightarrow> bool" where
  "py_startswith s p = (take (length p) s = p)"

definition py_endswith :: "string \<Rightarrow> string \<Rightarrow> bool" where
  "py_endswith s p = (length p \<le> length s \<and> drop (length s - length p) s = p)"

text \<open>
  \<open>s.splitlines()\<close>: a line ends at LF, CR, CR LF, VT, FF, FS, GS or RS; the breaks are
  dropped and no empty last line is produced.
\<close>

definition is_linebreak :: "char \<Rightarrow> bool" where
  "is_linebreak c = (c \<in> set [CHR 0x0A, CHR 0x0D, CHR 0x0B, CHR 0x0C,
                               CHR 0x1C, CHR 0x1D, CHR 0x1E])"

fun splitlines_from :: "string \<Rightarrow> string \<Rightarrow> string list" where
  "splitlines_from cur [] = (if cur = [] then [] else [cur])"
| "splitlines_from cur [c] = (if is_linebreak c then [cur] else [cur @ [c]])"
| "splitlines_from cur (c # d # cs) =
     (if c = CHR 0x0D \<and> d = CHR 0x0A then cur # splitlines_from [] cs
      else if is_linebreak c then cur # splitlines_from [] (d # cs)
      else splitlines_from (cur @ [c]) (d # cs))"

definition py_splitlines :: "string \<Rightarrow> string list" where
  "py_splitlines s = splitlines_from [] s"

text \<open>\<open>s.split()\<close>: the maximal runs of characters that are not whitespace.\<close>

fun split_ws_from :: "string \<Rightarrow> string \<Rightarrow> string list" where
  "split_ws_from cur [] = (if cur = [] then [] else [cur])"
| "split_ws_from cur (c # cs) =
     (if py_isspace c
      then (if cur = [] then split_ws_from [] cs else cur # split_ws_from [] cs)
      else split_ws_from (cur @ [c]) cs)"

definition py_split :: "string \<Rightarrow> string list" where
  "py_split s = split_ws_from [] s"

text \<open>\<open>s.split(sep)\<close> for a separator of one character: always at least one field.\<close>

fun split_on_from :: "char \<Rightarrow> string \<Rightarrow> string \<Rightarrow> string list" where
  "split_on_from sep cur [] = [cur]"
| "split_on_from sep cur (c # cs) =
     (if c = sep then cur # split_on_from sep [] cs else split_on_from sep (cur @ [c]) cs)"

definition py_split_on :: "char \<Rightarrow> string \<Rightarrow> string list" where
  "py_split_on sep s = split_on_from sep [] s"

text \<open>\<open>s.upper()\<close> and \<open>s.lower()\<close> on ASCII.\<close>

definition upper_char :: "char \<Rightarrow> char" where
  "upper_char c =
     (case map_of (zip ''abcdefghijklmnopqrstuvwxyz'' ''ABCDEFGHIJKLMNOPQRSTUVWXYZ'') c of
        Some u \<Rightarrow> u
      | None \<Rightarrow> c)"

definition lower_char :: "char \<Rightarrow> char" where
  "lower_char c =
     (case map_of (zip ''ABCDEFGHIJKLMNOPQRSTUVWXYZ'' ''abcdefghijklmnopqrstuvwxyz'') c of
        Some l \<Rightarrow> l
      | None \<Rightarrow> c)"

definition py_upper :: "string \<Rightarrow> string" where
  "py_upper s = map upper_char s"

definition py_lower :: "string \<Rightarrow> string" where
  "py_lower s = map lower_char s"

text \<open>
  \<open>Path(path).name\<close> on a POSIX system: the last component of the path, where empty
  components and \<open>.\<close> are dropped; the empty string when nothing is left.
\<close>

definition path_name :: "string \<Rightarrow> string" where
  "path_name p =
     (case filter (\<lambda>x. x \<noteq> [] \<and> x \<noteq> ''.'') (py_split_on (CHR ''/'') p) of
        [] \<Rightarrow> []
      | x # xs \<Rightarrow> last (x # xs))"

subsection \<open>Library functions taken as parameters\<close>

text \<open>
  An element of an \<open>xml.etree.ElementTree\<close> tree: its tag (with the namespace in
  braces before the local name), its text (\<open>None\<close> when there is none) and its
  children in document order.
\<close>

datatype xml = Element (xml_tag: string) (xml_text: "string option") (xml_children: "xml list")

text \<open>
  The standard library's parsers and conversions are not part of the repository; the
  model takes them as the fields of one record.
  \<^item> \<open>json_loads\<close>, \<open>toml_loads\<close>, \<open>xml_fromstring\<close>: \<open>json.loads\<close>,
    \<open>tomllib.loads\<close> and \<open>ET.fromstring\<close>;
  \<^item> \<open>gradle_finditer\<close>: the four groups of every match that \<open>finditer\<close> finds for
    the pattern compiled in \<open>parse_gradle\<close>;
  \<^item> \<open>py_str\<close>: \<open>str(x)\<close> for an \<open>x\<close> that is not a string;
  \<^item> \<open>py_float\<close>: \<open>float(x)\<close>, which may raise;
  \<^item> \<open>float_nonzero\<close>: the truth value of a float;
  \<^item> \<open>py_sorted_set\<close>: \<open>sorted\<close> of the set holding the given hashable values.
\<close>

record 'f pylib =
  json_loads :: "string \<Rightarrow> py_error + 'f pyval"
  toml_loads :: "string \<Rightarrow> py_error + 'f pyval"
  xml_fromstring :: "string \<Rightarrow> py_error + xml"
  gradle_finditer :: "string \<Rightarrow> (string \<times> string \<times> string \<times> string) list"
  py_str :: "'f pyval \<Rightarrow> string"
  py_float :: "'f pyval \<Rightarrow> py_error + 'f"
  float_nonzero :: "'f \<Rightarrow> bool"
  py_sorted_set :: "'f pyval list \<Rightarrow> py_error + 'f pyval list"

subsection \<open>Operations on values\<close>

text \<open>\<open>x.get(key, default)\<close>: only a dictionary has the method.\<close>

definition py_get :: "'f pyval \<Rightarrow> string \<Rightarrow> 'f pyval \<Rightarrow> py_error + 'f pyval" where
  "py_get x key dflt =
     (case x of
        PDict kvs \<Rightarrow> Inr (case map_of kvs key of Some v \<Rightarrow> v | None \<Rightarrow> dflt)
      | _ \<Rightarrow> Inl AttributeError)"

text \<open>\<open>x.items()\<close>.\<close>

definition py_items :: "'f pyval \<Rightarrow> py_error + (string \<times> 'f pyval) list" where
  "py_items x = (case x of PDict kvs \<Rightarrow> Inr kvs | _ \<Rightarrow> Inl AttributeError)"

text \<open>
  \<open>for y in x\<close>: the elements of a list, the characters of a string, the keys of a
  dictionary; anything else is not iterable.
\<close>

definition py_iter :: "'f pyval \<Rightarrow> py_error + 'f pyval list" where
  "py_iter x =
     (case x of
        PList xs \<Rightarrow> Inr xs
      | PStr s \<Rightarrow> Inr (map (\<lambda>c. PStr [c]) s)
      | PDict kvs \<Rightarrow> Inr (map (\<lambda>kv. PStr (fst kv)) kvs)
      | _ \<Rightarrow> Inl TypeError)"

text \<open>The truth value of \<open>x\<close>, as \<open>if x\<close>, \<open>not x\<close> and \<open>x or y\<close> test it.\<close>

definition py_truthy :: "'f pylib \<Rightarrow> 'f pyval \<Rightarrow> bool" where
  "py_truthy L x =
     (case x of
        PNone \<Rightarrow> False
      | PBool b \<Rightarrow> b
      | PInt n \<Rightarrow> n \<noteq> 0
      | PFloat f \<Rightarrow> float_nonzero L f
      | PStr s \<Rightarrow> s \<noteq> []
      | PList xs \<Rightarrow> xs \<noteq> []
      | PDict kvs \<Rightarrow> kvs \<noteq> [])"

text \<open>
  \<open>x[0]\<close>: the first element of a list, the first character of a string; a dictionary
  made from JSON or TOML has no key \<open>0\<close>; the other values cannot be subscripted.
\<close>

definition py_first :: "'f pyval \<Rightarrow> py_error + 'f pyval" where
  "py_first x =
     (case x of
        PList xs \<Rightarrow> (case xs of [] \<Rightarrow> Inl IndexError | y # _ \<Rightarrow> Inr y)
      | PStr s \<Rightarrow> (case s of [] \<Rightarrow> Inl IndexError | c # _ \<Rightarrow> Inr (PStr [c]))
      | PDict kvs \<Rightarrow> Inl KeyError
      | _ \<Rightarrow> Inl TypeError)"

text \<open>Whether \<open>x\<close> can be hashed (be a member of a set, or looked up in a dictionary).\<close>

definition py_hashable :: "'f pyval \<Rightarrow> bool" where
  "py_hashable x = (case x of PList _ \<Rightarrow> False | PDict _ \<Rightarrow> False | _ \<Rightarrow> True)"

text \<open>
  \<open>key in x\<close> for a string \<open>key\<close>: a key of a dictionary, a substring of a string, an
  element of a list.
\<close>

fun is_substring :: "string \<Rightarrow> string \<Rightarrow> bool" where
  "is_substring key [] = (key = [])"
| "is_substring key (c # cs) = (py_startswith (c # cs) key \<or> is_substring key cs)"

definition py_contains :: "string \<Rightarrow> 'f pyval \<Rightarrow> py_error + bool" where
  "py_contains key x =
     (case x of
        PDict kvs \<Rightarrow> Inr (case map_of kvs key of None \<Rightarrow> False | Some _ \<Rightarrow> True)
      | PStr s \<Rightarrow> Inr (is_substring key s)
      | PList xs \<Rightarrow> Inr (list_ex (\<lambda>y. case y of PStr t \<Rightarrow> t = key | _ \<Rightarrow> False) xs)
      | _ \<Rightarrow> Inl TypeError)"

text \<open>\<open>x[key]\<close> for a string \<open>key\<close>.\<close>

definition py_getitem :: "'f pyval \<Rightarrow> string \<Rightarrow> py_error + 'f pyval" where
  "py_getitem x key =
     (case x of
        PDict kvs \<Rightarrow> (case map_of kvs key of None \<Rightarrow> Inl KeyError | Some v \<Rightarrow> Inr v)
      | _ \<Rightarrow> Inl TypeError)"

text \<open>\<open>sep.join(parts)\<close>.\<close>

fun py_join :: "string \<Rightarrow> string list \<Rightarrow> string" where
  "py_join sep [] = []"
| "py_join sep [x] = x"
| "py_join sep (x # y # ys) = x @ sep @ py_join sep (y # ys)"

text \<open>\<open>str(x)\<close> and the \<open>{x}\<close> of an f-string.\<close>

definition py_format :: "'f pylib \<Rightarrow> 'f pyval \<Rightarrow> string" where
  "py_format L x = (case x of PStr s \<Rightarrow> s | _ \<Rightarrow> py_str L x)"

section \<open>dependency\_parsers.py\<close>

text \<open>\<open>Dependency = Dict[str, str]\<close>: the five entries written by \<open>_normalize_dep\<close>.\<close>

type_synonym dependency = "(string \<times> string) list"

text \<open>
  The character class of the pattern \<open>r"^[~^><=\\s]+"\<close>. The pattern is a raw string, so
  the class holds an escaped backslash followed by the letter \<open>s\<close>: its members are
  \<open>~ ^ > < =\<close>, the backslash and \<open>s\<close>.
\<close>

definition operator_class :: "char \<Rightarrow> bool" where
  "operator_class c = (c \<in> set (''~^><='' @ [CHR 0x5C] @ ''s''))"

text \<open>The \<open>str\<close> branch of \<open>_clean_version\<close>: strip, substitute, fall back.\<close>

definition clean_version_str :: "string \<Rightarrow> string" where
  "clean_version_str version =
     (let v = py_strip version;
          v = dropWhile operator_class v
      in if v \<noteq> [] then v else version)"

definition clean_version :: "'f pylib \<Rightarrow> 'f pyval \<Rightarrow> string" where
  "clean_version L version =
     (case version of
        PStr s \<Rightarrow> clean_version_str s
      | _ \<Rightarrow> py_str L version)"

text \<open>\<open>_normalize_dep\<close>; \<open>name.strip()\<close> raises when the name is not a string.\<close>

definition normalize_dep ::
  "'f pylib \<Rightarrow> string \<Rightarrow> 'f pyval \<Rightarrow> 'f pyval \<Rightarrow> string \<Rightarrow> string \<Rightarrow> py_error + dependency"
where
  "normalize_dep L ecosystem name version scope manifest_path =
     (case name of
        PStr n \<Rightarrow>
          Inr [(''ecosystem'', ecosystem),
               (''name'', py_strip n),
               (''version'', clean_version L version),
               (''scope'', scope),
               (''manifest_path'', manifest_path)]
      | _ \<Rightarrow> Inl AttributeError)"

text \<open>
  A \<open>for\<close> loop that appends to \<open>deps\<close>: each round yields the records it appends,
  or raises and ends the loop. \<open>appended\<close> is the round that appends one record.
\<close>

definition appended :: "py_error + 'b \<Rightarrow> py_error + 'b list" where
  "appended m = then_do m (\<lambda>d. Inr [d])"

fun append_each ::
  "('a \<Rightarrow> py_error + 'b list) \<Rightarrow> 'b list \<Rightarrow> 'a list \<Rightarrow> py_error + 'b list"
where
  "append_each f deps [] = Inr deps"
| "append_each f deps (x # xs) =
     (case f x of Inl e \<Rightarrow> Inl e | Inr ds \<Rightarrow> append_each f (deps @ ds) xs)"

text \<open>
  \<open>re.split(r"(==|>=|<=|~=|!=)", line, maxsplit=1)\<close>: the leftmost place where one of
  the five operators stands; \<open>None\<close> when there is none (the result has one element).
\<close>

fun split_comparator :: "string \<Rightarrow> string \<Rightarrow> (string \<times> string \<times> string) option" where
  "split_comparator pre (c # d # cs) =
     (if d = CHR ''='' \<and> c \<in> set ''=><~!'' then Some (pre, [c, d], cs)
      else split_comparator (pre @ [c]) (d # cs))"
| "split_comparator pre cs = None"

definition split_requirement :: "string \<Rightarrow> string \<times> string" where
  "split_requirement line =
     (case split_comparator [] line of
        Some (name, _, version) \<Rightarrow> (name, version)
      | None \<Rightarrow> (line, ''*''))"

text \<open>One round of the loop of \<open>parse_requirements_txt\<close>, and the loop.\<close>

definition requirements_line ::
  "'f pylib \<Rightarrow> string \<Rightarrow> string \<Rightarrow> py_error + dependency list"
where
  "requirements_line L path line0 =
     (let line = py_strip line0 in
      if line = [] \<or> py_startswith line ''#'' then Inr []
      else
        let (name, version) = split_requirement line
        in appended (normalize_dep L ''pypi'' (PStr name) (PStr version) ''runtime'' path))"

definition parse_requirements_txt ::
  "'f pylib \<Rightarrow> string \<Rightarrow> string \<Rightarrow> py_error + dependency list"
where
  "parse_requirements_txt L content path =
     append_each (requirements_line L path) [] (py_splitlines content)"

text \<open>
  One round of the loop of \<open>parse_go_mod\<close>. In the \<open>require\<close> branch the source
  rewrites \<open>line\<close> and then continues with the next line, so the rewritten text is
  never used.
\<close>

definition go_mod_line :: "'f pylib \<Rightarrow> string \<Rightarrow> string \<Rightarrow> py_error + dependency list" where
  "go_mod_line L path line0 =
     (let line = py_strip line0 in
      if line = [] \<or> py_startswith line ''//'' \<or> py_startswith line ''module'' then Inr []
      else if py_startswith line ''require'' then Inr []
      else
        (case py_split line of
           p0 # p1 # _ \<Rightarrow>
             appended (normalize_dep L ''go'' (PStr p0) (PStr p1) ''runtime'' path)
         | _ \<Rightarrow> Inr []))"

definition parse_go_mod :: "'f pylib \<Rightarrow> string \<Rightarrow> string \<Rightarrow> py_error + dependency list" where
  "parse_go_mod L content path =
     append_each (go_mod_line L path) [] (py_splitlines content)"

subsection \<open>The handlers that read JSON, TOML, XML and Gradle scripts\<close>

definition package_json_section ::
  "'f pylib \<Rightarrow> 'f pyval \<Rightarrow> string \<Rightarrow> string \<times> string \<Rightarrow> py_error + dependency list"
where
  "package_json_section L data path sec =
     (case sec of (section, scope) \<Rightarrow>
        then_do (py_get data section (PDict [])) (\<lambda>d.
        then_do (py_items d)
          (append_each
             (\<lambda>(name, version). appended (normalize_dep L ''npm'' (PStr name) version scope path))
             [])))"

definition parse_package_json ::
  "'f pylib \<Rightarrow> string \<Rightarrow> string \<Rightarrow> py_error + dependency list"
where
  "parse_package_json L content path =
     then_do (json_loads L content) (\<lambda>data.
       append_each (package_json_section L data path) []
         [(''dependencies'', ''runtime''), (''devDependencies'', ''dev'')])"

definition pyproject_entry :: "'f pylib \<Rightarrow> string \<Rightarrow> 'f pyval \<Rightarrow> py_error + dependency list" where
  "pyproject_entry L path entry =
     (case entry of
        PStr e \<Rightarrow>
          (let (name, version) = split_requirement e
           in appended (normalize_dep L ''pypi'' (PStr name) (PStr version) ''runtime'' path))
      | _ \<Rightarrow> Inr [])"

text \<open>\<open>entry.split(" ")[0]\<close> needs a string; the whole entry is passed as the version.\<close>

definition pyproject_optional_entry ::
  "'f pylib \<Rightarrow> string \<Rightarrow> 'f pyval \<Rightarrow> py_error + dependency list"
where
  "pyproject_optional_entry L path entry =
     (case entry of
        PStr e \<Rightarrow>
          (case py_split_on (CHR '' '') e of
             [] \<Rightarrow> Inl IndexError
           | name # _ \<Rightarrow> appended (normalize_dep L ''pypi'' (PStr name) entry ''dev'' path))
      | _ \<Rightarrow> Inl AttributeError)"

definition pyproject_optional_group ::
  "'f pylib \<Rightarrow> string \<Rightarrow> string \<times> 'f pyval \<Rightarrow> py_error + dependency list"
where
  "pyproject_optional_group L path grp =
     then_do (py_iter (snd grp)) (append_each (pyproject_optional_entry L path) [])"

definition poetry_section ::
  "'f pylib \<Rightarrow> 'f pyval \<Rightarrow> string \<Rightarrow> string \<times> string \<Rightarrow> py_error + dependency list"
where
  "poetry_section L poetry path sec =
     (case sec of (section, scope) \<Rightarrow>
        then_do (py_get poetry section (PDict [])) (\<lambda>d.
        then_do (py_items d)
          (append_each
             (\<lambda>(name, version).
                if name = ''python'' then Inr []
                else appended
                       (normalize_dep L ''pypi'' (PStr name) (PStr (py_format L version)) scope path))
             [])))"

definition parse_pyproject_toml ::
  "'f pylib \<Rightarrow> string \<Rightarrow> string \<Rightarrow> py_error + dependency list"
where
  "parse_pyproject_toml L content path =
     then_do (toml_loads L content) (\<lambda>data.
     then_do (py_get data ''project'' (PDict [])) (\<lambda>project.
     then_do (py_get project ''dependencies'' (PList [])) (\<lambda>listed.
     then_do (py_iter listed) (\<lambda>entries.
     then_do (append_each (pyproject_entry L path) [] entries) (\<lambda>deps.
     then_do (py_get project ''optional-dependencies'' (PDict [])) (\<lambda>opt.
     then_do (py_items opt) (\<lambda>groups.
     then_do (append_each (pyproject_optional_group L path) deps groups) (\<lambda>deps.
     then_do (py_get data ''tool'' (PDict [])) (\<lambda>tool.
     then_do (py_get tool ''poetry'' (PDict [])) (\<lambda>poetry.
       append_each (poetry_section L poetry path) deps
         [(''dependencies'', ''runtime''), (''dev-dependencies'', ''dev'')]))))))))))"

definition pipfile_entry ::
  "'f pylib \<Rightarrow> string \<Rightarrow> string \<Rightarrow> string \<times> 'f pyval \<Rightarrow> py_error + dependency list"
where
  "pipfile_entry L scope path entry =
     (case entry of (name, version) \<Rightarrow>
        (let version_str =
               (case version of
                  PDict kvs \<Rightarrow> (case map_of kvs ''version'' of Some v \<Rightarrow> v | None \<Rightarrow> PStr ''*'')
                | PStr s \<Rightarrow> PStr s
                | _ \<Rightarrow> PStr ''*'')
         in appended (normalize_dep L ''pypi'' (PStr name) version_str scope path)))"

text \<open>
  The conditional expression binds weaker than \<open>or\<close>: for \<open>packages\<close> the section is
  \<open>data.get(section, {}) or data.get("default", {})\<close>, for \<open>dev-packages\<close> it is
  \<open>data.get("develop", {})\<close>.
\<close>

definition pipfile_section ::
  "'f pylib \<Rightarrow> 'f pyval \<Rightarrow> string \<Rightarrow> string \<times> string \<Rightarrow> py_error + dependency list"
where
  "pipfile_section L data path sec =
     (case sec of (section, scope) \<Rightarrow>
        then_do
          (if section = ''packages''
           then then_do (py_get data section (PDict [])) (\<lambda>listed.
                  if py_truthy L listed then Inr listed else py_get data ''default'' (PDict []))
           else py_get data ''develop'' (PDict []))
          (\<lambda>section_data.
             then_do (py_items section_data) (append_each (pipfile_entry L scope path) [])))"

definition parse_pipfile :: "'f pylib \<Rightarrow> string \<Rightarrow> string \<Rightarrow> py_error + dependency list" where
  "parse_pipfile L content path =
     then_do
       (case toml_loads L content of
          Inl TOMLDecodeError \<Rightarrow> json_loads L content
        | Inl e \<Rightarrow> Inl e
        | Inr data \<Rightarrow> Inr data)
       (\<lambda>data.
          append_each (pipfile_section L data path) []
            [(''packages'', ''runtime''), (''dev-packages'', ''dev'')])"

definition poetry_lock_package ::
  "'f pylib \<Rightarrow> string \<Rightarrow> 'f pyval \<Rightarrow> py_error + dependency list"
where
  "poetry_lock_package L path pkg =
     then_do (py_get pkg ''name'' PNone) (\<lambda>name.
     then_do (py_get pkg ''version'' (PStr ''*'')) (\<lambda>version.
       if \<not> py_truthy L name then Inr []
       else appended (normalize_dep L ''pypi'' name version ''runtime'' path)))"

definition parse_poetry_lock :: "'f pylib \<Rightarrow> string \<Rightarrow> string \<Rightarrow> py_error + dependency list" where
  "parse_poetry_lock L content path =
     then_do (toml_loads L content) (\<lambda>data.
     then_do (py_get data ''package'' (PList [])) (\<lambda>listed.
     then_do (py_iter listed) (append_each (poetry_lock_package L path) [])))"

definition cargo_section ::
  "'f pylib \<Rightarrow> 'f pyval \<Rightarrow> string \<Rightarrow> string \<times> string \<Rightarrow> py_error + dependency list"
where
  "cargo_section L data path sec =
     (case sec of (section, scope) \<Rightarrow>
        then_do (py_get data section (PDict [])) (\<lambda>d.
        then_do (py_items d)
          (append_each
             (\<lambda>(name, version).
                let version_str = (case version of PStr s \<Rightarrow> PStr s | _ \<Rightarrow> PStr ''*'')
                in appended (normalize_dep L ''cargo'' (PStr name) version_str scope path))
             [])))"

definition parse_cargo_toml :: "'f pylib \<Rightarrow> string \<Rightarrow> string \<Rightarrow> py_error + dependency list" where
  "parse_cargo_toml L content path =
     then_do (toml_loads L content) (\<lambda>data.
       append_each (cargo_section L data path) []
         [(''dependencies'', ''runtime''), (''dev-dependencies'', ''dev''),
          (''build-dependencies'', ''runtime'')])"

text \<open>
  \<open>root.findall(".//m:dependency")\<close> visits every element below the root, in document
  order; \<open>findtext\<close> reads the first child with the tag, an absent text as \<open>""\<close>.
\<close>

fun descendants :: "xml \<Rightarrow> xml list" where
  "descendants (Element t x cs) = concat (map (\<lambda>c. c # descendants c) cs)"

definition maven_ns :: string where
  "maven_ns = ''{http://maven.apache.org/POM/4.0.0}''"

definition findtext :: "xml \<Rightarrow> string \<Rightarrow> string \<Rightarrow> string" where
  "findtext e name dflt =
     (case filter (\<lambda>c. xml_tag c = maven_ns @ name) (xml_children e) of
        [] \<Rightarrow> dflt
      | c # _ \<Rightarrow> (case xml_text c of None \<Rightarrow> [] | Some t \<Rightarrow> t))"

definition pom_dependency :: "'f pylib \<Rightarrow> string \<Rightarrow> xml \<Rightarrow> py_error + dependency list" where
  "pom_dependency L path dep =
     (let group = findtext dep ''groupId'' [];
          artifact = findtext dep ''artifactId'' [];
          version = findtext dep ''version'' ''*'';
          scope = findtext dep ''scope'' ''runtime'';
          name = (if group \<noteq> [] then group @ '':'' @ artifact else artifact)
      in appended (normalize_dep L ''maven'' (PStr name) (PStr version) scope path))"

definition parse_pom_xml :: "'f pylib \<Rightarrow> string \<Rightarrow> string \<Rightarrow> py_error + dependency list" where
  "parse_pom_xml L content path =
     (case xml_fromstring L content of
        Inl ParseError \<Rightarrow> Inr []
      | Inl e \<Rightarrow> Inl e
      | Inr root \<Rightarrow>
          append_each (pom_dependency L path) []
            (filter (\<lambda>e. xml_tag e = maven_ns @ ''dependency'') (descendants root)))"

definition gradle_scope :: "string \<Rightarrow> string" where
  "gradle_scope configuration =
     (case map_of [(''implementation'', ''runtime''), (''api'', ''runtime''),
                   (''compileOnly'', ''runtime''), (''runtimeOnly'', ''runtime''),
                   (''testImplementation'', ''test'')] configuration of
        Some scope \<Rightarrow> scope
      | None \<Rightarrow> ''runtime'')"

definition parse_gradle :: "'f pylib \<Rightarrow> string \<Rightarrow> string \<Rightarrow> py_error + dependency list" where
  "parse_gradle L content path =
     append_each
       (\<lambda>(g1, g2, g3, g4).
          appended (normalize_dep L ''maven'' (PStr (g2 @ '':'' @ g3)) (PStr g4) (gradle_scope g1) path))
       [] (gradle_finditer L content)"

subsection \<open>The registry\<close>

type_synonym 'f handler = "'f pylib \<Rightarrow> string \<Rightarrow> string \<Rightarrow> py_error + dependency list"

definition HANDLERS :: "(string \<times> 'f handler) list" where
  "HANDLERS =
     [(''package.json'', parse_package_json),
      (''requirements.txt'', parse_requirements_txt),
      (''pyproject.toml'', parse_pyproject_toml),
      (''Pipfile'', parse_pipfile),
      (''Pipfile.lock'', parse_pipfile),
      (''poetry.lock'', parse_poetry_lock),
      (''go.mod'', parse_go_mod),
      (''Cargo.toml'', parse_cargo_toml),
      (''pom.xml'', parse_pom_xml),
      (''build.gradle'', parse_gradle),
      (''build.gradle.kts'', parse_gradle)]"

text \<open>\<open>name in HANDLERS\<close>: the key must be hashable; only a string can be a key there.\<close>

definition in_HANDLERS :: "'f pyval \<Rightarrow> py_error + bool" where
  "in_HANDLERS name =
     (if \<not> py_hashable name then Inl TypeError
      else case name of
             PStr s \<Rightarrow>
               Inr (case map_of (HANDLERS :: (string \<times> 'f handler) list) s of
                      None \<Rightarrow> False
                    | Some _ \<Rightarrow> True)
           | _ \<Rightarrow> Inr False)"

text \<open>\<open>name and name.startswith("requirements") and name.endswith(".txt")\<close>.\<close>

definition requirements_wildcard :: "'f pylib \<Rightarrow> 'f pyval \<Rightarrow> py_error + bool" where
  "requirements_wildcard L name =
     (if \<not> py_truthy L name then Inr False
      else case name of
             PStr s \<Rightarrow> Inr (py_startswith s ''requirements'' \<and> py_endswith s ''.txt'')
           | _ \<Rightarrow> Inl AttributeError)"

definition detect_file ::
  "'f pylib \<Rightarrow> (string \<times> 'f pyval) list \<Rightarrow> py_error + 'f pyval list"
where
  "detect_file L f =
     (let name = (case map_of f ''name'' of Some v \<Rightarrow> v | None \<Rightarrow> PNone) in
      then_do (in_HANDLERS name) (\<lambda>registered.
      then_do (if registered then Inr True else requirements_wildcard L name) (\<lambda>hit.
        if hit then (case map_of f ''path'' of Some p \<Rightarrow> Inr [p] | None \<Rightarrow> Inl KeyError)
        else Inr [])))"

definition detect_manifests ::
  "'f pylib \<Rightarrow> (string \<times> 'f pyval) list list \<Rightarrow> py_error + 'f pyval list"
where
  "detect_manifests L files = append_each (detect_file L) [] files"

text \<open>
  \<open>parse_manifest\<close>: the handler is looked up under the exact file name; whatever the
  handler raises is caught by \<open>except Exception\<close>.
\<close>

definition parse_manifest :: "'f pylib \<Rightarrow> string \<Rightarrow> string \<Rightarrow> py_error + dependency list" where
  "parse_manifest L path content =
     (case map_of HANDLERS (path_name path) of
        None \<Rightarrow> Inr []
      | Some handler \<Rightarrow>
          (case handler L content path of
             Inr deps \<Rightarrow> Inr deps
           | Inl e \<Rightarrow> Inr []))"

section \<open>risk\_model.py\<close>

text \<open>\<open>VulnRecord = Dict[str, object]\<close>.\<close>

type_synonym 'f vuln = "(string \<times> 'f pyval) list"

definition SEVERITY_WEIGHTS :: "(string \<times> int) list" where
  "SEVERITY_WEIGHTS =
     [(''CRITICAL'', 5), (''HIGH'', 4), (''MEDIUM'', 3), (''LOW'', 1), (''UNKNOWN'', 1)]"

text \<open>
  \<open>severity_rank\<close>: \<open>SEVERITY_WEIGHTS.get(severity.upper(), 1)\<close>, where
  \<open>severity.upper()\<close> needs a string.
\<close>

definition label_rank :: "string \<Rightarrow> int" where
  "label_rank s = (case map_of SEVERITY_WEIGHTS (py_upper s) of Some w \<Rightarrow> w | None \<Rightarrow> 1)"

definition severity_rank :: "'f pyval \<Rightarrow> py_error + int" where
  "severity_rank severity =
     (case severity of
        PStr s \<Rightarrow> Inr (label_rank s)
      | _ \<Rightarrow> Inl AttributeError)"

text \<open>\<open>v.get("severity", "LOW")\<close>.\<close>

definition severity_of :: "'f vuln \<Rightarrow> 'f pyval" where
  "severity_of v = (case map_of v ''severity'' of Some s \<Rightarrow> s | None \<Rightarrow> PStr ''LOW'')"

text \<open>\<open>max\<close> of a sequence of integers; it raises on the empty sequence.\<close>

definition py_max :: "int list \<Rightarrow> py_error + int" where
  "py_max ws = (case ws of [] \<Rightarrow> Inl ValueError | w # ws' \<Rightarrow> Inr (foldl max w ws'))"

definition dependency_risk :: "dependency \<Rightarrow> 'f vuln list \<Rightarrow> py_error + int" where
  "dependency_risk dep vulns =
     (if vulns = [] then Inr 0
      else
        then_do (map_err (\<lambda>v. severity_rank (severity_of v)) vulns) (\<lambda>ranks.
        then_do (py_max ranks) (\<lambda>weight.
          let scope_boost = (if map_of dep ''scope'' = Some ''runtime'' then 1 else 0)
          in Inr (weight + scope_boost))))"

text \<open>
  \<open>max(xs, key=f)\<close>: the keys are computed from left to right, and an element replaces
  the best one so far only when its key is strictly larger.
\<close>

fun max_by_key_from ::
  "('a \<Rightarrow> py_error + int) \<Rightarrow> 'a \<Rightarrow> int \<Rightarrow> 'a list \<Rightarrow> py_error + 'a"
where
  "max_by_key_from f best k [] = Inr best"
| "max_by_key_from f best k (x # xs) =
     (case f x of
        Inl e \<Rightarrow> Inl e
      | Inr k' \<Rightarrow> if k' > k then max_by_key_from f x k' xs else max_by_key_from f best k xs)"

definition py_max_by_key :: "('a \<Rightarrow> py_error + int) \<Rightarrow> 'a list \<Rightarrow> py_error + 'a" where
  "py_max_by_key f xs =
     (case xs of
        [] \<Rightarrow> Inl ValueError
      | x # xs' \<Rightarrow> then_do (f x) (\<lambda>k. max_by_key_from f x k xs'))"

text \<open>
  An element of \<open>deps_with_vulns\<close>: \<open>item.get("vulnerabilities", [])\<close> tolerates a
  missing key, \<open>item["dependency"]\<close> does not.
\<close>

record 'f finding =
  dependency :: "dependency option"
  vulnerabilities :: "'f vuln list option"

definition item_vulnerabilities :: "'f finding \<Rightarrow> 'f vuln list" where
  "item_vulnerabilities item = (case vulnerabilities item of Some vs \<Rightarrow> vs | None \<Rightarrow> [])"

record 'f risk_summary =
  risk_score :: int
  highest_severity :: "'f pyval"
  vulnerable_dependencies :: int

text \<open>One round of the loop of \<open>repo_risk\<close>, on the triple \<open>(score, highest, vuln_count)\<close>.\<close>

definition repo_risk_step ::
  "int \<times> 'f pyval \<times> int \<Rightarrow> 'f finding \<Rightarrow> py_error + (int \<times> 'f pyval \<times> int)"
where
  "repo_risk_step st item =
     (case st of (score, highest, vuln_count) \<Rightarrow>
        let vulns = item_vulnerabilities item in
        if vulns = [] then Inr (score, highest, vuln_count)
        else
          (case dependency item of
             None \<Rightarrow> Inl KeyError
           | Some dep \<Rightarrow>
               then_do (dependency_risk dep vulns) (\<lambda>dep_score.
               then_do (py_max_by_key severity_rank (map severity_of vulns)) (\<lambda>sev.
               then_do (severity_rank sev) (\<lambda>r.
               then_do (severity_rank highest) (\<lambda>r_highest.
                 Inr (score + dep_score,
                      if r > r_highest then sev else highest,
                      vuln_count + 1)))))))"

fun repo_risk_loop ::
  "int \<times> 'f pyval \<times> int \<Rightarrow> 'f finding list \<Rightarrow> py_error + (int \<times> 'f pyval \<times> int)"
where
  "repo_risk_loop st [] = Inr st"
| "repo_risk_loop st (item # items) =
     (case repo_risk_step st item of Inl e \<Rightarrow> Inl e | Inr st' \<Rightarrow> repo_risk_loop st' items)"

definition repo_risk :: "'f finding list \<Rightarrow> py_error + 'f risk_summary" where
  "repo_risk deps_with_vulns =
     then_do (repo_risk_loop (0, PStr ''LOW'', 0) deps_with_vulns) (\<lambda>(score, highest, vuln_count).
       Inr \<lparr>risk_score = score, highest_severity = highest,
            vulnerable_dependencies = vuln_count\<rparr>)"

section \<open>vuln\_lookup.py\<close>

subsection \<open>Normalising one advisory\<close>

text \<open>
  The loop over \<open>v.get("severity", [])\<close>: every entry overwrites \<open>severity\<close> with its
  \<open>type\<close> (keeping the old value when it has none) and \<open>score\<close> with its score as a
  float, or with \<open>None\<close> when \<open>float\<close> raises \<open>TypeError\<close> or \<open>ValueError\<close>.
\<close>

fun severity_loop ::
  "'f pylib \<Rightarrow> 'f pyval \<times> 'f option \<Rightarrow> 'f pyval list \<Rightarrow> py_error + ('f pyval \<times> 'f option)"
where
  "severity_loop L st [] = Inr st"
| "severity_loop L st (s # ss) =
     (case py_get s ''type'' (fst st) of
        Inl e \<Rightarrow> Inl e
      | Inr severity \<Rightarrow>
          (case py_get s ''score'' PNone of
             Inl e \<Rightarrow> Inl e
           | Inr x \<Rightarrow>
               (case py_float L x of
                  Inr f \<Rightarrow> severity_loop L (severity, Some f) ss
                | Inl e \<Rightarrow>
                    if e = TypeError \<or> is_ValueError e
                    then severity_loop L (severity, None) ss
                    else Inl e)))"

text \<open>
  The loop over the events of the first range, on the pair of \<open>parts\<close> and the values
  added to \<open>fixed_versions\<close> so far (in the order they were added).
\<close>

definition event_step ::
  "'f pylib \<Rightarrow> string list \<times> 'f pyval list \<Rightarrow> 'f pyval
     \<Rightarrow> py_error + (string list \<times> 'f pyval list)"
where
  "event_step L st ev =
     (case st of (parts, fixed) \<Rightarrow>
        then_do (py_contains ''introduced'' ev) (\<lambda>has_introduced.
        then_do
          (if has_introduced
           then then_do (py_getitem ev ''introduced'') (\<lambda>x. Inr (parts @ [''>='' @ py_format L x]))
           else Inr parts) (\<lambda>parts.
        then_do (py_contains ''fixed'' ev) (\<lambda>has_fixed.
          if has_fixed
          then then_do (py_getitem ev ''fixed'') (\<lambda>x.
                 if py_hashable x then Inr (parts @ [''<'' @ py_format L x], fixed @ [x])
                 else Inl TypeError)
          else Inr (parts, fixed)))))"

fun events_loop ::
  "'f pylib \<Rightarrow> string list \<times> 'f pyval list \<Rightarrow> 'f pyval list
     \<Rightarrow> py_error + (string list \<times> 'f pyval list)"
where
  "events_loop L st [] = Inr st"
| "events_loop L st (ev # evs) =
     (case event_step L st ev of Inl e \<Rightarrow> Inl e | Inr st' \<Rightarrow> events_loop L st' evs)"

text \<open>
  The loop over \<open>v.get("affected", [])\<close>, on the pair of \<open>affected_range\<close> and the
  values added to \<open>fixed_versions\<close>.
\<close>

definition affected_step ::
  "'f pylib \<Rightarrow> string \<times> 'f pyval list \<Rightarrow> 'f pyval \<Rightarrow> py_error + (string \<times> 'f pyval list)"
where
  "affected_step L st aff =
     (case st of (affected_range, fixed) \<Rightarrow>
        then_do (py_get aff ''ranges'' (PList [])) (\<lambda>ranges.
        then_do
          (if py_truthy L ranges
           then then_do (py_first ranges) (\<lambda>r0.
                then_do (py_get r0 ''events'' (PList [])) (\<lambda>events.
                then_do (py_iter events) (\<lambda>evs.
                then_do (events_loop L ([], fixed) evs) (\<lambda>(parts, fixed).
                  Inr (py_join '' '' parts, fixed)))))
           else Inr (affected_range, fixed)) (\<lambda>(affected_range, fixed).
        then_do (py_get aff ''versions'' (PList [])) (\<lambda>versions.
        then_do (py_iter versions) (\<lambda>vs.
          if list_all py_hashable vs then Inr (affected_range, fixed @ vs)
          else Inl TypeError)))))"

fun affected_loop ::
  "'f pylib \<Rightarrow> string \<times> 'f pyval list \<Rightarrow> 'f pyval list \<Rightarrow> py_error + (string \<times> 'f pyval list)"
where
  "affected_loop L st [] = Inr st"
| "affected_loop L st (aff # affs) =
     (case affected_step L st aff of Inl e \<Rightarrow> Inl e | Inr st' \<Rightarrow> affected_loop L st' affs)"

text \<open>
  The value stored under \<open>"id"\<close>. The conditional expression binds weaker than \<open>or\<close>:
  the source reads \<open>(v.get("id") or aliases[0]) if aliases else ""\<close>.
\<close>

definition advisory_id :: "'f pylib \<Rightarrow> 'f pyval \<Rightarrow> 'f pyval \<Rightarrow> py_error + 'f pyval" where
  "advisory_id L v aliases =
     (if py_truthy L aliases
      then then_do (py_get v ''id'' PNone) (\<lambda>i. if py_truthy L i then Inr i else py_first aliases)
      else Inr (PStr []))"

text \<open>The body of the loop over \<open>data.get("vulns", [])\<close>.\<close>

definition normalize_advisory :: "'f pylib \<Rightarrow> 'f pyval \<Rightarrow> py_error + 'f vuln" where
  "normalize_advisory L v =
     then_do (py_get v ''aliases'' PNone) (\<lambda>a.
     let aliases = (if py_truthy L a then a else PList []) in
     then_do (py_get v ''summary'' (PStr [])) (\<lambda>s.
     then_do (if py_truthy L s then Inr s else py_get v ''details'' (PStr [])) (\<lambda>summary.
     then_do (py_get v ''severity'' (PList [])) (\<lambda>sev_value.
     then_do (py_iter sev_value) (\<lambda>sev_entries.
     then_do (severity_loop L (PStr ''UNKNOWN'', None) sev_entries) (\<lambda>(severity, score).
     then_do (py_get v ''affected'' (PList [])) (\<lambda>aff_value.
     then_do (py_iter aff_value) (\<lambda>aff_entries.
     then_do (affected_loop L ([], []) aff_entries) (\<lambda>(affected_range, fixed_versions).
     then_do (advisory_id L v aliases) (\<lambda>ident.
     then_do (py_sorted_set L fixed_versions) (\<lambda>sorted_fixed.
     then_do (py_get v ''references'' (PList [PDict []])) (\<lambda>refs.
     then_do (py_first refs) (\<lambda>ref0.
     then_do (py_get ref0 ''url'' (PStr [])) (\<lambda>url.
       Inr [(''id'', ident),
            (''summary'', summary),
            (''severity'', severity),
            (''cvss_score'', case score of None \<Rightarrow> PNone | Some f \<Rightarrow> PFloat f),
            (''affected_range'', PStr affected_range),
            (''fixed_versions'', PList sorted_fixed),
            (''reference_url'', url)]))))))))))))))"

text \<open>Everything after the request loop: \<open>resp.json()\<close> and the loop over the advisories.\<close>

definition normalize_payload :: "'f pylib \<Rightarrow> py_error + 'f pyval \<Rightarrow> py_error + 'f vuln list" where
  "normalize_payload L body =
     then_do body (\<lambda>data.
     then_do (py_get data ''vulns'' (PList [])) (\<lambda>listed.
     then_do (py_iter listed) (map_err (normalize_advisory L))))"

subsection \<open>The request loop and the cache\<close>

text \<open>
  A response of the service: its status code and what \<open>resp.json()\<close> gives (an error
  when the body is not JSON). \<open>raise_for_status\<close> raises for the codes 400 to 599.
\<close>

record 'f response =
  status_code :: int
  json_body :: "py_error + 'f pyval"

definition raise_for_status :: "'f response \<Rightarrow> py_error + unit" where
  "raise_for_status resp =
     (if 400 \<le> status_code resp \<and> status_code resp < 600 then Inl (HTTPError (status_code resp))
      else Inr ())"

text \<open>
  The object's state: the cache, the number of requests the session has sent, and the
  delays \<open>time.sleep\<close> was called with. The service is a function from the number of
  earlier requests and the request body to the response, or to the error that
  \<open>session.post\<close> raises.
\<close>

type_synonym cache_key = "string \<times> string \<times> string"

record 'f lookup_state =
  cache :: "cache_key \<Rightarrow> 'f vuln list option"
  posts :: nat
  sleeps :: "nat list"

type_synonym 'f service = "nat \<Rightarrow> 'f pyval \<Rightarrow> py_error + 'f response"

text \<open>How the \<open>while\<close> loop ends.\<close>

datatype 'f loop_exit =
    Return_empty
  | Raise py_error
  | After_loop "'f response option"

function request_loop ::
  "'f service \<Rightarrow> 'f pyval \<Rightarrow> 'f response option \<Rightarrow> 'f lookup_state \<Rightarrow> nat
     \<Rightarrow> 'f loop_exit \<times> 'f lookup_state"
where
  "request_loop post payload resp st tries =
     (if tries < 3 then
        (case post (posts st) payload of
           Inl e \<Rightarrow> (Raise e, st)
         | Inr r \<Rightarrow>
             let st = st\<lparr>posts := posts st + 1\<rparr> in
             if status_code r = 400 then (Return_empty, st)
             else if status_code r = 429 \<or> status_code r = 503
             then request_loop post payload (Some r) (st\<lparr>sleeps := sleeps st @ [2 ^ tries]\<rparr>)
                    (tries + 1)
             else (case raise_for_status r of
                     Inl e \<Rightarrow> (Raise e, st)
                   | Inr _ \<Rightarrow> (After_loop (Some r), st)))
      else (After_loop resp, st))"
  by pat_completeness auto
termination
  by (relation "measure (\<lambda>(post, payload, resp, st, tries). 3 - tries)") auto

definition lookup ::
  "'f pylib \<Rightarrow> 'f service \<Rightarrow> 'f lookup_state \<Rightarrow> string \<Rightarrow> string \<Rightarrow> string
     \<Rightarrow> (py_error + 'f vuln list) \<times> 'f lookup_state"
where
  "lookup L post st ecosystem name version =
     (let key = (py_lower ecosystem, py_lower name, version) in
      case cache st key of
        Some vulns \<Rightarrow> (Inr vulns, st)
      | None \<Rightarrow>
          if name = [] \<or> version = [] \<or> version = ''*''
          then (Inr [], st\<lparr>cache := (cache st)(key := Some [])\<rparr>)
          else
            let payload = PDict [(''version'', PStr version),
                                 (''package'', PDict [(''ecosystem'', PStr ecosystem),
                                                      (''name'', PStr name)])]
            in case request_loop post payload None st 0 of
                 (Return_empty, st) \<Rightarrow> (Inr [], st\<lparr>cache := (cache st)(key := Some [])\<rparr>)
               | (Raise e, st) \<Rightarrow> (Inl e, st)
               | (After_loop None, st) \<Rightarrow> (Inl UnboundLocalError, st)
               | (After_loop (Some resp), st) \<Rightarrow>
                   (case normalize_payload L (json_body resp) of
                      Inl e \<Rightarrow> (Inl e, st)
                    | Inr vulns \<Rightarrow> (Inr vulns, st\<lparr>cache := (cache st)(key := Some vulns)\<rparr>)))"

section \<open>Reference definitions and a test double\<close>

text \<open>
  The version normaliser as the specification words it: the leading run of
  \<open>~ ^ > < =\<close> and whitespace is removed and nothing else; the original string comes
  back when nothing would be left.
\<close>

definition spec_version_normalize :: "string \<Rightarrow> string" where
  "spec_version_normalize version =
     (let v = dropWhile (\<lambda>c. c \<in> set ''~^><='' \<or> py_isspace c) version
      in if v = [] then version else v)"

text \<open>
  The first element of greatest key in a sequence that starts with \<open>best\<close>: what a scan
  keeps when only a strictly greater key replaces the element kept so far.
\<close>

fun first_max :: "('a \<Rightarrow> int) \<Rightarrow> 'a \<Rightarrow> 'a list \<Rightarrow> 'a" where
  "first_max g best [] = best"
| "first_max g best (x # xs) =
     (if g x > g best then first_max g x xs else first_max g best xs)"

text \<open>The weights as the specification lists them, for the five labels it names.\<close>

definition spec_severity_weight :: "string \<Rightarrow> int option" where
  "spec_severity_weight label =
     (if label = ''CRITICAL'' then Some 5
      else if label = ''HIGH'' then Some 4
      else if label = ''MEDIUM'' then Some 3
      else if label = ''LOW'' then Some 1
      else if label = ''UNKNOWN'' then Some 1
      else None)"

text \<open>
  A test double for the library, used to evaluate the code on concrete inputs. Floats
  are written as their decimal text. It is right on what the examples pass to it:
  every parser rejects its document, \<open>float\<close> knows the numerals \<open>7.5\<close> and \<open>9.8\<close>, rejects
  every other string with \<open>ValueError\<close> and every other value with \<open>TypeError\<close>, and
  \<open>sorted\<close> is only given sets of at most one element.
\<close>

definition example_lib :: "string pylib" where
  "example_lib =
     \<lparr>json_loads = (\<lambda>_. Inl JSONDecodeError),
      toml_loads = (\<lambda>_. Inl TOMLDecodeError),
      xml_fromstring = (\<lambda>_. Inl ParseError),
      gradle_finditer = (\<lambda>_. []),
      py_str = (\<lambda>_. []),
      py_float = (\<lambda>x. case x of
                         PStr s \<Rightarrow> if s = ''7.5'' \<or> s = ''9.8'' then Inr s else Inl ValueError
                       | _ \<Rightarrow> Inl TypeError),
      float_nonzero = (\<lambda>f. True),
      py_sorted_set = (\<lambda>xs. Inr (remdups xs))\<rparr>"

section \<open>Properties of dependency\_parsers.py\<close>

lemmas text_simps = py_strip_def strip_where_def py_isspace_def py_startswith_def
  py_endswith_def py_splitlines_def is_linebreak_def py_split_def py_split_on_def

lemma dropWhile_weaker:
  "(\<And>x. Q x \<Longrightarrow> P x) \<Longrightarrow> dropWhile P (dropWhile Q xs) = dropWhile P xs"
  by (induction xs) auto

lemma operator_class_iff:
  "operator_class c \<longleftrightarrow> c \<in> set ''~^><='' \<or> c = CHR 0x5C \<or> c = CHR ''s''"
  by (auto simp: operator_class_def)

lemma append_each_total:
  assumes "\<And>x. x \<in> set xs \<Longrightarrow> f x = Inr (g x)"
  shows "append_each f acc xs = Inr (acc @ concat (map g xs))"
  using assms by (induction xs arbitrary: acc) simp_all

lemma concat_map_filter_nonempty:
  assumes "\<And>x. x \<in> set xs \<Longrightarrow> \<not> P x \<Longrightarrow> g x = []"
  shows "concat (map g (filter P xs)) = concat (map g xs)"
  using assms by (induction xs) simp_all

lemma normalize_dep_str:
  "normalize_dep L eco (PStr n) (PStr v) scope path =
     Inr [(''ecosystem'', eco), (''name'', py_strip n), (''version'', clean_version_str v),
          (''scope'', scope), (''manifest_path'', path)]"
  by (simp add: normalize_dep_def clean_version_def)

subsection \<open>The version normaliser\<close>

text \<open>
  Claim C6, as the code has it. \<open>_clean_version\<close> first trims whitespace at both ends.
  When what is left holds nothing but \<open>~ ^ > < =\<close>, the original string is returned
  unchanged. Otherwise, when the character after the leading run of \<open>~ ^ > < =\<close> is
  not whitespace, a backslash or the letter \<open>s\<close>, the result is the trimmed string
  without that leading run.
\<close>

theorem clean_version_str_design:
  assumes "rest = dropWhile (\<lambda>c. c \<in> set ''~^><='') (py_strip version)"
  shows "(rest = [] \<longrightarrow> clean_version_str version = version) \<and>
         (rest \<noteq> [] \<and> \<not> py_isspace (hd rest) \<and> hd rest \<noteq> CHR 0x5C \<and> hd rest \<noteq> CHR ''s''
            \<longrightarrow> clean_version_str version = rest)"
proof -
  have eq: "dropWhile operator_class (py_strip version) = dropWhile operator_class rest"
    unfolding assms
    by (rule dropWhile_weaker [symmetric]) (simp add: operator_class_iff)
  have a: "clean_version_str version = version" if "rest = []"
  proof -
    from eq that have d: "dropWhile operator_class (py_strip version) = []"
      by simp
    show ?thesis
      unfolding clean_version_str_def Let_def d by simp
  qed
  have b: "clean_version_str version = rest"
    if "rest \<noteq> []" "hd rest \<noteq> CHR 0x5C" "hd rest \<noteq> CHR ''s''"
  proof -
    have "\<not> operator_class (hd rest)"
    proof
      assume "operator_class (hd rest)"
      then have "hd rest \<in> set ''~^><=''"
        using that by (simp add: operator_class_iff)
      moreover have "hd rest \<notin> set ''~^><=''"
        using that(1) hd_dropWhile [of "\<lambda>c. c \<in> set ''~^><=''" "py_strip version"]
        unfolding assms by blast
      ultimately show False by blast
    qed
    then have "dropWhile operator_class rest = rest"
      using that(1) by (cases rest) simp_all
    with eq have d: "dropWhile operator_class (py_strip version) = rest"
      by simp
    show ?thesis
      unfolding clean_version_str_def Let_def d using that(1) by simp
  qed
  show ?thesis using a b by blast
qed

theorem clean_version_str_design_witness:
  "clean_version_str '' >=1.2.3 '' = ''1.2.3'' \<and> clean_version_str ''^2.0.0'' = ''2.0.0''
     \<and> clean_version_str [] = []  \<and> clean_version_str '' == '' = '' == ''"
  using clean_version_str_design [of "''1.2.3''" "'' >=1.2.3 ''"]
    clean_version_str_design [of "''2.0.0''" "''^2.0.0''"]
    clean_version_str_design [of "[]" "[]"]
    clean_version_str_design [of "[]" "'' == ''"]
  by (simp add: text_simps)

text \<open>
  The normaliser of the specification removes nothing but a leading run, so it keeps
  the space at the end of \<open>"1.2.3 "\<close>; the code trims it.
\<close>

theorem clean_version_str_counterexample:
  "clean_version_str ''1.2.3 '' = ''1.2.3'' \<and>
   clean_version_str ''1.2.3 '' \<noteq> spec_version_normalize ''1.2.3 ''"
  by (simp add: clean_version_str_def spec_version_normalize_def operator_class_def text_simps)

text \<open>
  The pattern's class holds a backslash and the letter \<open>s\<close> where whitespace was
  meant: whitespace after an operator stays, and a leading \<open>s\<close> is lost.
\<close>

lemma clean_version_str_slip:
  "clean_version_str ''>= 1.2.3'' = '' 1.2.3'' \<and> clean_version_str ''stable'' = ''table''"
  by (simp add: clean_version_str_def operator_class_def text_simps)

subsection \<open>The registry\<close>

text \<open>
  Claim C2. \<open>parse_manifest\<close> looks the handler up under the exact file name, so a
  file named \<open>requirements-dev.txt\<close> has no handler and yields no dependency, although
  \<open>parse_requirements_txt\<close> reads its content and \<open>detect_manifests\<close> reports it as a
  manifest.
\<close>

theorem parse_manifest_requirements_wildcard:
  "parse_manifest L ''requirements-dev.txt'' ''flask==2.0.0'' = Inr [] \<and>
   parse_requirements_txt L ''flask==2.0.0'' ''requirements-dev.txt'' =
     Inr [[(''ecosystem'', ''pypi''), (''name'', ''flask''), (''version'', ''2.0.0''),
           (''scope'', ''runtime''), (''manifest_path'', ''requirements-dev.txt'')]] \<and>
   detect_manifests L [[(''name'', PStr ''requirements-dev.txt''),
                        (''path'', PStr ''requirements-dev.txt'')]] =
     Inr [PStr ''requirements-dev.txt'']"
proof -
  have a: "parse_manifest L ''requirements-dev.txt'' ''flask==2.0.0'' = Inr []"
    by (simp add: parse_manifest_def path_name_def py_split_on_def HANDLERS_def)
  have b: "parse_requirements_txt L ''flask==2.0.0'' ''requirements-dev.txt'' =
     Inr [[(''ecosystem'', ''pypi''), (''name'', ''flask''), (''version'', ''2.0.0''),
           (''scope'', ''runtime''), (''manifest_path'', ''requirements-dev.txt'')]]"
    by (simp add: parse_requirements_txt_def requirements_line_def split_requirement_def
        appended_def then_do_def normalize_dep_str clean_version_str_def operator_class_def
        text_simps)
  have c: "detect_manifests L [[(''name'', PStr ''requirements-dev.txt''),
                        (''path'', PStr ''requirements-dev.txt'')]] =
     Inr [PStr ''requirements-dev.txt'']"
    by (simp add: detect_manifests_def detect_file_def in_HANDLERS_def HANDLERS_def
        requirements_wildcard_def py_hashable_def py_truthy_def then_do_def text_simps)
  from a b c show ?thesis by blast
qed

text \<open>
  Claim C9. \<open>parse_manifest\<close> never raises: it returns a list for every path and
  content, the empty list when no handler is registered for the file name, and the
  empty list when the handler raises.
\<close>

theorem parse_manifest_never_raises:
  "(\<exists>deps. parse_manifest L path content = Inr deps) \<and>
   (map_of (HANDLERS :: (string \<times> 'f handler) list) (path_name path) = None
      \<longrightarrow> parse_manifest L path content = Inr []) \<and>
   (\<forall>handler e. map_of HANDLERS (path_name path) = Some handler \<and>
        handler L content path = Inl e
      \<longrightarrow> parse_manifest (L :: 'f pylib) path content = Inr [])"
  by (auto simp: parse_manifest_def split: option.splits sum.splits)

theorem parse_manifest_never_raises_witness:
  "parse_package_json example_lib ''{'' ''web/package.json'' = Inl JSONDecodeError \<and>
   parse_manifest example_lib ''web/package.json'' ''{'' = Inr [] \<and>
   parse_manifest example_lib ''web/Makefile'' ''all:'' = Inr []"
proof -
  have h: "map_of (HANDLERS :: (string \<times> string handler) list) (path_name ''web/package.json'')
             = Some parse_package_json"
    by (simp add: HANDLERS_def path_name_def py_split_on_def)
  have e: "parse_package_json example_lib ''{'' ''web/package.json'' = Inl JSONDecodeError"
    by (simp add: parse_package_json_def example_lib_def then_do_def)
  have n: "map_of (HANDLERS :: (string \<times> string handler) list) (path_name ''web/Makefile'') = None"
    by (simp add: HANDLERS_def path_name_def py_split_on_def)
  from parse_manifest_never_raises [of example_lib "''web/package.json''" "''{''"] h e
  have 1: "parse_manifest example_lib ''web/package.json'' ''{'' = Inr []" by blast
  from parse_manifest_never_raises [of example_lib "''web/Makefile''" "''all:''"] n
  have 2: "parse_manifest example_lib ''web/Makefile'' ''all:'' = Inr []" by blast
  from e 1 2 show ?thesis by blast
qed

subsection \<open>Go modules\<close>

text \<open>
  Claim C10. \<open>parse_go_mod\<close> yields one record for every line that, once stripped, is
  not empty, does not start with \<open>//\<close>, \<open>module\<close> or \<open>require\<close>, and has at least two
  fields; no other line contributes. In particular a line
  \<open>require <name> <version>\<close> yields nothing.
\<close>

theorem parse_go_mod_require_lines:
  "parse_go_mod L content path =
     Inr (concat (map
       (\<lambda>l. case py_split (py_strip l) of
               p0 # p1 # _ \<Rightarrow>
                 [[(''ecosystem'', ''go''), (''name'', py_strip p0),
                   (''version'', clean_version_str p1), (''scope'', ''runtime''),
                   (''manifest_path'', path)]]
             | _ \<Rightarrow> [])
       (filter
          (\<lambda>l. py_strip l \<noteq> [] \<and> \<not> py_startswith (py_strip l) ''//'' \<and>
               \<not> py_startswith (py_strip l) ''module'' \<and>
               \<not> py_startswith (py_strip l) ''require'')
          (py_splitlines content)))) \<and>
   parse_go_mod L ''require github.com/pkg/errors v0.9.1'' path = Inr []"
proof -
  define g where "g = (\<lambda>l. case py_split (py_strip l) of
               p0 # p1 # _ \<Rightarrow>
                 [[(''ecosystem'', ''go''), (''name'', py_strip p0),
                   (''version'', clean_version_str p1), (''scope'', ''runtime''),
                   (''manifest_path'', path)]]
             | _ \<Rightarrow> [])"
  define keep where "keep = (\<lambda>l. py_strip l \<noteq> [] \<and> \<not> py_startswith (py_strip l) ''//'' \<and>
               \<not> py_startswith (py_strip l) ''module'' \<and>
               \<not> py_startswith (py_strip l) ''require'')"
  define h where "h = (\<lambda>l. if keep l then g l else [])"
  have line: "go_mod_line L path l = Inr (h l)" for l
    by (auto simp: go_mod_line_def h_def keep_def g_def Let_def appended_def then_do_def
        normalize_dep_str split: list.splits)
  have "parse_go_mod L content path = Inr (concat (map h (py_splitlines content)))"
    unfolding parse_go_mod_def using append_each_total [of _ "go_mod_line L path" h "[]"] line
    by simp
  also have "concat (map h (py_splitlines content))
               = concat (map h (filter keep (py_splitlines content)))"
    by (rule concat_map_filter_nonempty [symmetric]) (simp add: h_def)
  also have "\<dots> = concat (map g (filter keep (py_splitlines content)))"
    by (rule arg_cong [where f = concat]) (simp add: h_def)
  finally have whole: "parse_go_mod L content path =
      Inr (concat (map g (filter keep (py_splitlines content))))" .
  have ex: "parse_go_mod L ''require github.com/pkg/errors v0.9.1'' path = Inr []"
    by (simp add: parse_go_mod_def go_mod_line_def text_simps)
  from whole ex show ?thesis
    unfolding g_def keep_def by blast
qed

section \<open>Properties of risk\_model.py\<close>

lemma label_rank_values:
  "label_rank ''CRITICAL'' = 5" "label_rank ''HIGH'' = 4" "label_rank ''MEDIUM'' = 3"
  "label_rank ''LOW'' = 1" "label_rank ''UNKNOWN'' = 1"
  by (simp_all add: label_rank_def SEVERITY_WEIGHTS_def py_upper_def upper_char_def)

lemma label_rank_spec:
  assumes "spec_severity_weight l = Some w"
  shows "label_rank l = w"
proof -
  consider "l = ''CRITICAL'' \<and> w = 5" | "l = ''HIGH'' \<and> w = 4" | "l = ''MEDIUM'' \<and> w = 3"
    | "l = ''LOW'' \<and> w = 1" | "l = ''UNKNOWN'' \<and> w = 1"
    using assms unfolding spec_severity_weight_def by (metis option.inject option.distinct(1))
  then show ?thesis
    by cases (simp_all only: label_rank_values)
qed

lemma map_err_total:
  assumes "\<And>x. x \<in> set xs \<Longrightarrow> f x = Inr (g x)"
  shows "map_err f xs = Inr (map g xs)"
  using assms by (induction xs) simp_all

lemma ranks_of_labels:
  assumes "map severity_of vulns = map PStr labels"
  shows "map_err (\<lambda>v. severity_rank (severity_of v)) vulns = Inr (map label_rank labels)"
  using assms
proof (induction vulns arbitrary: labels)
  case Nil
  then show ?case by simp
next
  case (Cons v vs)
  then obtain l ls where "labels = l # ls" "severity_of v = PStr l"
    "map severity_of vs = map PStr ls"
    by (cases labels) auto
  with Cons.IH [of ls] show ?case
    by (simp add: severity_rank_def)
qed

lemma py_max_Max: "ws \<noteq> [] \<Longrightarrow> py_max ws = Inr (Max (set ws))"
proof (cases ws)
  case Nil
  then show "ws \<noteq> [] \<Longrightarrow> ?thesis" by simp
next
  case (Cons w ws')
  have "foldl max w ws' = fold max ws' w"
    by (simp add: foldl_conv_fold max.commute)
  also have "\<dots> = Max (set (w # ws'))"
    by (rule Max.set_eq_fold [symmetric])
  finally show ?thesis
    using Cons by (simp add: py_max_def)
qed

lemma dependency_risk_labels:
  assumes "map severity_of vulns = map PStr labels" "vulns \<noteq> []"
  shows "dependency_risk dep vulns =
    Inr (Max (label_rank ` set labels) + (if map_of dep ''scope'' = Some ''runtime'' then 1 else 0))"
proof -
  from assms have "labels \<noteq> []" by auto
  then have "py_max (map label_rank labels) = Inr (Max (label_rank ` set labels))"
    using py_max_Max [of "map label_rank labels"] by simp
  then show ?thesis
    using assms(2) ranks_of_labels [OF assms(1)]
    by (simp add: dependency_risk_def then_do_def)
qed

text \<open>
  Claim C8. \<open>dependency_risk\<close> returns 0 for an empty vulnerability list. Otherwise,
  for vulnerabilities whose severities are among the five labels, it returns the
  greatest of their weights (CRITICAL 5, HIGH 4, MEDIUM 3, LOW 1, UNKNOWN 1), plus 1
  when the dependency's scope is \<open>runtime\<close> and plus 0 otherwise.
\<close>

theorem dependency_risk_weights:
  assumes "map severity_of vulns = map PStr labels"
      and "map spec_severity_weight labels = map Some ws"
  shows "dependency_risk dep vulns =
           Inr (if vulns = [] then 0
                else Max (set ws) + (if map_of dep ''scope'' = Some ''runtime'' then 1 else 0))"
proof (cases "vulns = []")
  case True
  then show ?thesis by (simp add: dependency_risk_def)
next
  case False
  have "map label_rank labels = ws"
    using assms(2)
  proof (induction labels arbitrary: ws)
    case Nil
    then show ?case by simp
  next
    case (Cons l ls)
    then show ?case by (cases ws) (auto simp: label_rank_spec)
  qed
  then have "label_rank ` set labels = set ws" by (metis set_map)
  with False dependency_risk_labels [OF assms(1) False, of dep] show ?thesis by simp
qed

theorem dependency_risk_weights_witness:
  "dependency_risk [(''name'', ''flask''), (''scope'', ''runtime'')]
     [[(''id'', PStr ''GHSA-1''), (''severity'', PStr ''HIGH'')]] = Inr 5 \<and>
   dependency_risk [(''name'', ''flask''), (''scope'', ''dev'')]
     [[(''id'', PStr ''GHSA-1''), (''severity'', PStr ''HIGH'')]] = Inr 4 \<and>
   dependency_risk [(''name'', ''flask''), (''scope'', ''runtime'')]
     [[(''severity'', PStr ''LOW'')], [(''severity'', PStr ''CRITICAL'')],
      [(''severity'', PStr ''MEDIUM'')], [(''severity'', PStr ''UNKNOWN'')]] = Inr 6"
  using
    dependency_risk_weights [of "[[(''id'', PStr ''GHSA-1''), (''severity'', PStr ''HIGH'')]]"
      "[''HIGH'']" "[4]" "[(''name'', ''flask''), (''scope'', ''runtime'')]"]
    dependency_risk_weights [of "[[(''id'', PStr ''GHSA-1''), (''severity'', PStr ''HIGH'')]]"
      "[''HIGH'']" "[4]" "[(''name'', ''flask''), (''scope'', ''dev'')]"]
    dependency_risk_weights [of "[[(''severity'', PStr ''LOW'')], [(''severity'', PStr ''CRITICAL'')],
      [(''severity'', PStr ''MEDIUM'')], [(''severity'', PStr ''UNKNOWN'')]]"
      "[''LOW'', ''CRITICAL'', ''MEDIUM'', ''UNKNOWN'']" "[1, 5, 3, 1]"
      "[(''name'', ''flask''), (''scope'', ''runtime'')]"]
  by (simp add: severity_of_def spec_severity_weight_def)

subsection \<open>The highest severity of a repository\<close>

lemma max_by_key_from_first_max:
  assumes "\<And>x. x \<in> set xs \<Longrightarrow> f x = Inr (g x)"
  shows "max_by_key_from f best (g best) xs = Inr (first_max g best xs)"
  using assms by (induction xs arbitrary: best) simp_all

lemma first_max_append:
  "first_max g b (xs @ ys) = first_max g (first_max g b xs) ys"
  by (induction xs arbitrary: b) simp_all

lemma first_max_replace:
  "(if g b < g (first_max g x xs) then first_max g x xs else b)
     = first_max g (if g b < g x then x else b) xs"
proof (induction xs arbitrary: x b)
  case Nil
  then show ?case by simp
next
  case (Cons y ys)
  define x' where "x' = (if g x < g y then y else x)"
  define c where "c = (if g b < g x then x else b)"
  have 1: "first_max g x (y # ys) = first_max g x' ys"
    by (simp add: x'_def)
  have 2: "first_max g c (y # ys) = first_max g (if g c < g y then y else c) ys"
    by simp
  have 3: "(if g b < g x' then x' else b) = (if g c < g y then y else c)"
    unfolding x'_def c_def by auto
  have "(if g b < g (first_max g x (y # ys)) then first_max g x (y # ys) else b)
          = (if g b < g (first_max g x' ys) then first_max g x' ys else b)"
    by (simp only: 1)
  also have "\<dots> = first_max g (if g b < g x' then x' else b) ys"
    by (rule Cons.IH)
  also have "\<dots> = first_max g (if g c < g y then y else c) ys"
    by (simp only: 3)
  also have "\<dots> = first_max g c (y # ys)"
    by (simp only: 2)
  finally show ?case
    unfolding c_def .
qed

lemma first_max_Cons_update:
  "first_max g b (x # xs) = (if g b < g (first_max g x xs) then first_max g x xs else b)"
  using first_max_replace [where g = g and x = x and xs = xs and b = b] by simp

lemma first_max_char:
  "(if \<forall>x\<in>set xs. g x \<le> g b then first_max g b xs = b
    else \<exists>pre post. xs = pre @ first_max g b xs # post \<and>
           (\<forall>l\<in>set pre. g l < g (first_max g b xs)) \<and>
           (\<forall>l\<in>set post. g l \<le> g (first_max g b xs)) \<and> g b < g (first_max g b xs))"
proof (induction xs arbitrary: b)
  case Nil
  then show ?case by simp
next
  case (Cons x xs)
  show ?case
  proof (cases "g x > g b")
    case True
    let ?h = "first_max g x xs"
    have h: "first_max g b (x # xs) = ?h" using True by simp
    show ?thesis
    proof (cases "\<forall>y\<in>set xs. g y \<le> g x")
      case all: True
      with Cons.IH [of x] have "?h = x" by simp
      then have "x # xs = [] @ ?h # xs \<and> (\<forall>l\<in>set []. g l < g ?h) \<and>
          (\<forall>l\<in>set xs. g l \<le> g ?h) \<and> g b < g ?h"
        using all True by simp
      then show ?thesis
        unfolding h using True by (metis linorder_not_le list.set_intros(1))
    next
      case False
      with Cons.IH [of x] obtain pre post where
        p: "xs = pre @ ?h # post" "\<forall>l\<in>set pre. g l < g ?h" "\<forall>l\<in>set post. g l \<le> g ?h"
           "g x < g ?h"
        by auto
      then have "x # xs = (x # pre) @ ?h # post \<and> (\<forall>l\<in>set (x # pre). g l < g ?h) \<and>
          (\<forall>l\<in>set post. g l \<le> g ?h) \<and> g b < g ?h"
        using True by auto
      then show ?thesis
        unfolding h using True by (metis linorder_not_le list.set_intros(1))
    qed
  next
    case le: False
    let ?h = "first_max g b xs"
    have h: "first_max g b (x # xs) = ?h" using le by simp
    show ?thesis
    proof (cases "\<forall>y\<in>set xs. g y \<le> g b")
      case True
      with Cons.IH [of b] have "?h = b" by simp
      then show ?thesis unfolding h using True le by simp
    next
      case False
      with Cons.IH [of b] obtain pre post where
        p: "xs = pre @ ?h # post" "\<forall>l\<in>set pre. g l < g ?h" "\<forall>l\<in>set post. g l \<le> g ?h"
           "g b < g ?h"
        by auto
      then have "x # xs = (x # pre) @ ?h # post \<and> (\<forall>l\<in>set (x # pre). g l < g ?h) \<and>
          (\<forall>l\<in>set post. g l \<le> g ?h) \<and> g b < g ?h"
        using le by auto
      moreover have "\<not> (\<forall>y\<in>set (x # xs). g y \<le> g b)" using False by simp
      ultimately show ?thesis
        unfolding h by (simp only: if_False) blast
    qed
  qed
qed

lemma max_by_rank_labels:
  assumes "labels \<noteq> []"
  shows "py_max_by_key severity_rank (map PStr labels)
           = Inr (PStr (first_max label_rank (hd labels) (tl labels)))"
proof -
  define rk :: "'a pyval \<Rightarrow> int" where
    "rk = (\<lambda>v. case v of PStr s \<Rightarrow> label_rank s | _ \<Rightarrow> 0)"
  obtain l ls where l: "labels = l # ls" using assms by (cases labels) auto
  have k: "severity_rank x = Inr (rk x)" if "x \<in> set (map PStr ls)" for x :: "'a pyval"
    using that by (auto simp: severity_rank_def rk_def)
  have "max_by_key_from severity_rank (PStr l) (rk (PStr l)) (map PStr ls)
          = Inr (first_max rk (PStr l) (map PStr ls))"
    by (rule max_by_key_from_first_max) (rule k)
  moreover have "first_max rk (PStr b) (map PStr xs) = PStr (first_max label_rank b xs)" for b xs
    by (induction xs arbitrary: b) (simp_all add: rk_def)
  moreover have "rk (PStr l) = label_rank l" by (simp add: rk_def)
  ultimately show ?thesis
    using l by (simp add: py_max_by_key_def then_do_def severity_rank_def)
qed

lemma repo_risk_step_labels:
  assumes "item_vulnerabilities item \<noteq> [] \<longrightarrow> dependency item \<noteq> None"
      and "map severity_of (item_vulnerabilities item) = map PStr ls"
  shows "\<exists>score' count'. repo_risk_step (score, PStr hi, count) item
           = Inr (score', PStr (first_max label_rank hi ls), count')"
proof (cases "item_vulnerabilities item = []")
  case True
  with assms(2) have "ls = []" by simp
  with True show ?thesis by (simp add: repo_risk_step_def)
next
  case False
  with assms(1) obtain dep where dep: "dependency item = Some dep" by auto
  from False assms(2) have ne: "ls \<noteq> []" by auto
  let ?s = "first_max label_rank (hd ls) (tl ls)"
  have "first_max label_rank hi ls = (if label_rank hi < label_rank ?s then ?s else hi)"
    using first_max_Cons_update [where g = label_rank and b = hi and x = "hd ls" and xs = "tl ls"]
      ne by simp
  moreover have "py_max_by_key severity_rank (map severity_of (item_vulnerabilities item))
      = Inr (PStr ?s)"
    using max_by_rank_labels [OF ne] assms(2) by simp
  ultimately show ?thesis
    using False dep dependency_risk_labels [OF assms(2) False, of dep]
    by (simp add: repo_risk_step_def then_do_def severity_rank_def Let_def)
qed

lemma repo_risk_loop_labels:
  assumes "\<forall>item\<in>set items. item_vulnerabilities item \<noteq> [] \<longrightarrow> dependency item \<noteq> None"
      and "concat (map (\<lambda>item. map severity_of (item_vulnerabilities item)) items)
             = map PStr labels"
  shows "\<exists>score' count'. repo_risk_loop (score, PStr hi, count) items
           = Inr (score', PStr (first_max label_rank hi labels), count')"
  using assms
proof (induction items arbitrary: score hi count labels)
  case Nil
  then show ?case by simp
next
  case (Cons item items)
  from Cons.prems(2) obtain ls1 ls2 where
    ls: "labels = ls1 @ ls2" "map severity_of (item_vulnerabilities item) = map PStr ls1"
        "concat (map (\<lambda>item. map severity_of (item_vulnerabilities item)) items) = map PStr ls2"
    by (auto simp: append_eq_map_conv)
  from Cons.prems(1) have d: "item_vulnerabilities item \<noteq> [] \<longrightarrow> dependency item \<noteq> None"
    by simp
  from repo_risk_step_labels [OF d ls(2), of score hi count] obtain s1 c1 where
    step: "repo_risk_step (score, PStr hi, count) item
             = Inr (s1, PStr (first_max label_rank hi ls1), c1)"
    by blast
  from Cons.prems(1) have rest: "\<forall>item\<in>set items.
      item_vulnerabilities item \<noteq> [] \<longrightarrow> dependency item \<noteq> None"
    by simp
  from Cons.IH [OF rest ls(3), of s1 "first_max label_rank hi ls1" c1] step
  show ?case by (simp add: ls(1) first_max_append)
qed

text \<open>
  Claim C4, as the code has it. The scan starts from \<open>LOW\<close> and only a label of
  strictly greater rank replaces the label kept so far. So \<open>highest_severity\<close> is
  \<open>LOW\<close> when no vulnerability ranks above \<open>LOW\<close> (also when \<open>UNKNOWN\<close> is the only
  severity present), and otherwise it is the first label of greatest rank among the
  severities of all vulnerabilities of all dependencies, in list order.
\<close>

theorem repo_risk_highest_severity:
  assumes "\<forall>item\<in>set items. item_vulnerabilities item \<noteq> [] \<longrightarrow> dependency item \<noteq> None"
      and "concat (map (\<lambda>item. map severity_of (item_vulnerabilities item)) items)
             = map PStr labels"
  shows "\<exists>r h. repo_risk items = Inr r \<and> highest_severity r = PStr h \<and>
           ((\<forall>l\<in>set labels. label_rank l \<le> 1) \<longrightarrow> h = ''LOW'') \<and>
           ((\<exists>l\<in>set labels. label_rank l > 1) \<longrightarrow>
              (\<exists>pre post. labels = pre @ h # post \<and>
                 (\<forall>l\<in>set pre. label_rank l < label_rank h) \<and>
                 (\<forall>l\<in>set post. label_rank l \<le> label_rank h)))"
proof -
  let ?h = "first_max label_rank ''LOW'' labels"
  from repo_risk_loop_labels [OF assms, of 0 "''LOW''" 0] obtain s c where
    loop: "repo_risk_loop (0, PStr ''LOW'', 0) items = Inr (s, PStr ?h, c)"
    by blast
  then have r: "repo_risk items =
      Inr \<lparr>risk_score = s, highest_severity = PStr ?h, vulnerable_dependencies = c\<rparr>"
    by (simp add: repo_risk_def then_do_def)
  have low: "label_rank ''LOW'' = 1" by (rule label_rank_values)
  have a: "(\<forall>l\<in>set labels. label_rank l \<le> 1) \<longrightarrow> ?h = ''LOW''"
    using first_max_char [of labels label_rank "''LOW''"] low by auto
  have b: "(\<exists>l\<in>set labels. label_rank l > 1) \<longrightarrow>
              (\<exists>pre post. labels = pre @ ?h # post \<and>
                 (\<forall>l\<in>set pre. label_rank l < label_rank ?h) \<and>
                 (\<forall>l\<in>set post. label_rank l \<le> label_rank ?h))"
  proof
    assume "\<exists>l\<in>set labels. label_rank l > 1"
    then have "\<not> (\<forall>x\<in>set labels. label_rank x \<le> label_rank ''LOW'')"
      using low by (simp add: not_le)
    with first_max_char [of labels label_rank "''LOW''"]
    show "\<exists>pre post. labels = pre @ ?h # post \<and>
                 (\<forall>l\<in>set pre. label_rank l < label_rank ?h) \<and>
                 (\<forall>l\<in>set post. label_rank l \<le> label_rank ?h)"
      by (simp only: if_False) blast
  qed
  from r a b show ?thesis by simp
qed

theorem repo_risk_highest_severity_witness:
  "repo_risk
     [\<lparr>dependency = Some [(''name'', ''left-pad''), (''scope'', ''dev'')],
       vulnerabilities = Some [[(''severity'', PStr ''UNKNOWN'')]]\<rparr>,
      \<lparr>dependency = Some [(''name'', ''flask''), (''scope'', ''runtime'')],
       vulnerabilities = Some [[(''severity'', PStr ''HIGH'')], [(''severity'', PStr ''CRITICAL'')]]\<rparr>,
      \<lparr>dependency = None, vulnerabilities = None\<rparr>]
   = Inr \<lparr>risk_score = 7, highest_severity = PStr ''CRITICAL'', vulnerable_dependencies = 2\<rparr>"
proof -
  let ?items = "[\<lparr>dependency = Some [(''name'', ''left-pad''), (''scope'', ''dev'')],
       vulnerabilities = Some [[(''severity'', PStr ''UNKNOWN'')]]\<rparr>,
      \<lparr>dependency = Some [(''name'', ''flask''), (''scope'', ''runtime'')],
       vulnerabilities = Some [[(''severity'', PStr ''HIGH'')], [(''severity'', PStr ''CRITICAL'')]]\<rparr>,
      \<lparr>dependency = None, vulnerabilities = None\<rparr>]"
  have h1: "\<forall>item\<in>set ?items. item_vulnerabilities item \<noteq> [] \<longrightarrow> dependency item \<noteq> None"
    by (simp add: item_vulnerabilities_def)
  have h2: "concat (map (\<lambda>item. map severity_of (item_vulnerabilities item)) ?items)
              = map PStr [''UNKNOWN'', ''HIGH'', ''CRITICAL'']"
    by (simp add: item_vulnerabilities_def severity_of_def)
  from repo_risk_highest_severity [OF h1 h2] obtain r h where
    r: "repo_risk ?items = Inr r" "highest_severity r = PStr h"
    by blast
  have "repo_risk ?items
    = Inr \<lparr>risk_score = 7, highest_severity = PStr ''CRITICAL'', vulnerable_dependencies = 2\<rparr>"
    by (simp add: repo_risk_def repo_risk_step_def item_vulnerabilities_def severity_of_def
        dependency_risk_def py_max_def py_max_by_key_def severity_rank_def label_rank_values
        then_do_def)
  with r show ?thesis by simp
qed

text \<open>
  With \<open>UNKNOWN\<close> as the only severity present, the result is \<open>LOW\<close>, a label that
  does not occur in the input.
\<close>

theorem repo_risk_highest_severity_counterexample:
  "repo_risk
     [\<lparr>dependency = Some [(''name'', ''flask''), (''scope'', ''runtime'')],
       vulnerabilities = Some [[(''severity'', PStr ''UNKNOWN'')]]\<rparr>]
   = Inr \<lparr>risk_score = 2, highest_severity = PStr ''LOW'', vulnerable_dependencies = 1\<rparr>"
  by (simp add: repo_risk_def repo_risk_step_def item_vulnerabilities_def severity_of_def
        dependency_risk_def py_max_def py_max_by_key_def severity_rank_def label_rank_values
        then_do_def)

section \<open>Properties of vuln\_lookup.py\<close>

lemmas value_simps = py_get_def py_items_def py_iter_def py_truthy_def py_first_def
  py_hashable_def py_format_def py_contains_def py_getitem_def then_do_def

lemma py_get_InrD:
  assumes "py_get x key dflt = Inr y"
  obtains kvs where "x = PDict kvs" "y = (case map_of kvs key of Some v \<Rightarrow> v | None \<Rightarrow> dflt)"
  using assms by (cases x) (auto simp: py_get_def)

lemma severity_loop_append:
  "severity_loop L st (xs @ ys) =
     (case severity_loop L st xs of Inl e \<Rightarrow> Inl e | Inr st' \<Rightarrow> severity_loop L st' ys)"
  by (induction xs arbitrary: st) (auto split: sum.splits)

lemma severity_loop_labels:
  assumes "severity_loop L (sev0, sc0) entries = Inr (sev, sc)"
  shows "sev = last (sev0 # concat (map (\<lambda>s. case s of
             PDict kvs \<Rightarrow> (case map_of kvs ''type'' of Some t \<Rightarrow> [t] | None \<Rightarrow> [])
           | _ \<Rightarrow> []) entries))"
  using assms
proof (induction entries arbitrary: sev0 sc0)
  case Nil
  then show ?case by simp
next
  case (Cons s ss)
  from Cons.prems obtain sev1 sc1 where
    g: "py_get s ''type'' sev0 = Inr sev1" and
    rest: "severity_loop L (sev1, sc1) ss = Inr (sev, sc)"
    by (auto split: sum.splits if_splits)
  from g obtain kvs where s: "s = PDict kvs"
    "sev1 = (case map_of kvs ''type'' of Some v \<Rightarrow> v | None \<Rightarrow> sev0)"
    by (rule py_get_InrD)
  from Cons.IH [OF rest] s show ?case
    by (auto split: option.splits)
qed

lemma severity_loop_final:
  assumes "severity_loop L st0 (es @ [PDict kvs]) = Inr (sev, sc)"
  shows "\<exists>sev1 sc1. severity_loop L st0 es = Inr (sev1, sc1) \<and>
           sev = (case map_of kvs ''type'' of Some t \<Rightarrow> t | None \<Rightarrow> sev1) \<and>
           sc = (case py_float L (case map_of kvs ''score'' of Some x \<Rightarrow> x | None \<Rightarrow> PNone) of
                   Inr f \<Rightarrow> Some f | Inl e \<Rightarrow> None)"
proof -
  from assms obtain sev1 sc1 where
    pre: "severity_loop L st0 es = Inr (sev1, sc1)" and
    fin: "severity_loop L (sev1, sc1) [PDict kvs] = Inr (sev, sc)"
    by (auto simp: severity_loop_append split: sum.splits)
  from fin have "sev = (case map_of kvs ''type'' of Some t \<Rightarrow> t | None \<Rightarrow> sev1) \<and>
           sc = (case py_float L (case map_of kvs ''score'' of Some x \<Rightarrow> x | None \<Rightarrow> PNone) of
                   Inr f \<Rightarrow> Some f | Inl e \<Rightarrow> None)"
    by (auto simp: py_get_def split: sum.splits if_splits)
  with pre show ?thesis by blast
qed

text \<open>An error of \<open>float\<close> that is neither a \<open>TypeError\<close> nor a \<open>ValueError\<close> ends the loop.\<close>

lemma severity_loop_uncaught:
  assumes "py_float L (case map_of kvs ''score'' of Some x \<Rightarrow> x | None \<Rightarrow> PNone) = Inl e"
      and "e \<noteq> TypeError" "\<not> is_ValueError e"
  shows "severity_loop L st (PDict kvs # ss) = Inl e"
  using assms by (simp add: py_get_def)

text \<open>
  The loop over the severity entries ends without an error when every entry is a
  dictionary and \<open>float\<close> raises nothing but \<open>TypeError\<close> and \<open>ValueError\<close>.
\<close>

lemma severity_loop_total:
  assumes "\<forall>s\<in>set entries. \<exists>kvs. s = PDict kvs"
      and "\<And>x e. py_float L x = Inl e \<Longrightarrow> e = TypeError \<or> is_ValueError e"
  shows "\<exists>st'. severity_loop L st entries = Inr st'"
  using assms(1)
proof (induction entries arbitrary: st)
  case Nil
  then show ?case by simp
next
  case (Cons s ss)
  then obtain kvs where s: "s = PDict kvs" by auto
  from Cons have IH: "\<exists>st'. severity_loop L st1 ss = Inr st'" for st1 by simp
  show ?case
  proof (cases "py_float L (case map_of kvs ''score'' of Some v \<Rightarrow> v | None \<Rightarrow> PNone)")
    case (Inl e)
    with assms(2) have "e = TypeError \<or> is_ValueError e" by blast
    with Inl s IH show ?thesis by (auto simp: py_get_def)
  next
    case (Inr f)
    with s IH show ?thesis by (simp add: py_get_def)
  qed
qed

lemma normalize_advisory_InrD:
  assumes "normalize_advisory L v = Inr r"
  obtains a sev_value sev_entries severity score ident where
    "py_get v ''aliases'' PNone = Inr a"
    "py_get v ''severity'' (PList []) = Inr sev_value"
    "py_iter sev_value = Inr sev_entries"
    "severity_loop L (PStr ''UNKNOWN'', None) sev_entries = Inr (severity, score)"
    "advisory_id L v (if py_truthy L a then a else PList []) = Inr ident"
    "map_of r ''id'' = Some ident"
    "map_of r ''severity'' = Some severity"
    "map_of r ''cvss_score'' = Some (case score of None \<Rightarrow> PNone | Some f \<Rightarrow> PFloat f)"
proof -
  from assms obtain a where a: "py_get v ''aliases'' PNone = Inr a"
    by (auto simp: normalize_advisory_def then_do_def split: sum.splits)
  from assms a obtain sev_value where sv: "py_get v ''severity'' (PList []) = Inr sev_value"
    by (auto simp: normalize_advisory_def then_do_def Let_def split: sum.splits)
  from assms a sv obtain sev_entries where se: "py_iter sev_value = Inr sev_entries"
    by (auto simp: normalize_advisory_def then_do_def Let_def split: sum.splits)
  from assms a sv se obtain severity score where
    sl: "severity_loop L (PStr ''UNKNOWN'', None) sev_entries = Inr (severity, score)"
    by (auto simp: normalize_advisory_def then_do_def Let_def split: sum.splits)
  from assms a sv se sl obtain ident where
    i: "advisory_id L v (if py_truthy L a then a else PList []) = Inr ident"
    by (auto simp: normalize_advisory_def then_do_def Let_def split: sum.splits prod.splits)
  from assms a sv se sl i have
    "map_of r ''id'' = Some ident \<and> map_of r ''severity'' = Some severity \<and>
     map_of r ''cvss_score'' = Some (case score of None \<Rightarrow> PNone | Some f \<Rightarrow> PFloat f)"
    by (auto simp: normalize_advisory_def then_do_def Let_def split: sum.splits prod.splits)
  with a sv se sl i that show thesis by blast
qed

text \<open>
  A payload that is normalised is a dictionary whose \<open>vulns\<close> can be iterated, and every
  record of the result is the normal form of the advisory at the same place.
\<close>

lemma map_err_InrD:
  "map_err f xs = Inr ys \<Longrightarrow> list_all2 (\<lambda>x y. f x = Inr y) xs ys"
  by (induction xs arbitrary: ys) (auto split: sum.splits)

lemma normalize_payload_InrD:
  assumes "normalize_payload L body = Inr records"
  shows "\<exists>data listed advisories.
           body = Inr data \<and> py_get data ''vulns'' (PList []) = Inr listed \<and>
           py_iter listed = Inr advisories \<and>
           list_all2 (\<lambda>v r. normalize_advisory L v = Inr r) advisories records"
  using assms
  by (auto simp: normalize_payload_def then_do_def split: sum.splits dest: map_err_InrD)

subsection \<open>Severity and score\<close>

text \<open>
  Claim C3, as the code has it. For an advisory that is normalised, the record's
  severity is the value under \<open>type\<close> of the last severity entry that has one, as it
  stands, and \<open>UNKNOWN\<close> when no entry has one. The code has no table of admitted
  labels.
\<close>

theorem normalize_advisory_severity:
  assumes "normalize_advisory L v = Inr r"
  shows "\<exists>sev_value entries.
           py_get v ''severity'' (PList []) = Inr sev_value \<and> py_iter sev_value = Inr entries \<and>
           map_of r ''severity'' =
             Some (last (PStr ''UNKNOWN'' # concat (map (\<lambda>s. case s of
                     PDict kvs \<Rightarrow> (case map_of kvs ''type'' of Some t \<Rightarrow> [t] | None \<Rightarrow> [])
                   | _ \<Rightarrow> []) entries)))"
proof -
  from assms obtain sev_value sev_entries severity score where
    "py_get v ''severity'' (PList []) = Inr sev_value"
    "py_iter sev_value = Inr sev_entries"
    "severity_loop L (PStr ''UNKNOWN'', None) sev_entries = Inr (severity, score)"
    "map_of r ''severity'' = Some severity"
    by (rule normalize_advisory_InrD)
  then show ?thesis
    using severity_loop_labels by blast
qed

theorem normalize_advisory_severity_witness:
  "\<exists>r. normalize_advisory example_lib
          (PDict [(''id'', PStr ''OSV-2020-111''),
                  (''severity'', PList [PDict [(''type'', PStr ''CVSS_V2'')],
                                        PDict [(''score'', PStr ''7.5'')]])]) = Inr r \<and>
        map_of r ''severity'' = Some (PStr ''CVSS_V2'')"
proof -
  let ?v = "PDict [(''id'', PStr ''OSV-2020-111''),
                  (''severity'', PList [PDict [(''type'', PStr ''CVSS_V2'')],
                                        PDict [(''score'', PStr ''7.5'')]])]"
  let ?r = "[(''id'', PStr []), (''summary'', PStr []), (''severity'', PStr ''CVSS_V2''),
             (''cvss_score'', PFloat ''7.5''), (''affected_range'', PStr []),
             (''fixed_versions'', PList []), (''reference_url'', PStr [])]"
  have n: "normalize_advisory example_lib ?v = Inr ?r"
    by (simp add: normalize_advisory_def advisory_id_def example_lib_def is_ValueError_def
        value_simps)
  from normalize_advisory_severity [OF n] have "map_of ?r ''severity'' = Some (PStr ''CVSS_V2'')"
    by (simp add: value_simps)
  with n show ?thesis by blast
qed

text \<open>
  An advisory whose severity entry has the type \<open>CVSS_V3\<close> (the labels the service
  sends name the scoring scheme) gets the severity \<open>CVSS_V3\<close>, which is none of the five
  labels.
\<close>

theorem normalize_advisory_severity_counterexample:
  "normalize_advisory example_lib
     (PDict [(''id'', PStr ''GHSA-m2qf-hxjv-5gpq''),
             (''aliases'', PList [PStr ''CVE-2023-30861'']),
             (''summary'', PStr ''Cookie disclosure''),
             (''severity'', PList [PDict [(''type'', PStr ''CVSS_V3''),
                (''score'', PStr ''CVSS:3.1/AV:N/AC:L/PR:N/UI:N/S:U/C:H/I:N/A:N'')]])])
   = Inr [(''id'', PStr ''GHSA-m2qf-hxjv-5gpq''),
          (''summary'', PStr ''Cookie disclosure''),
          (''severity'', PStr ''CVSS_V3''),
          (''cvss_score'', PNone),
          (''affected_range'', PStr []),
          (''fixed_versions'', PList []),
          (''reference_url'', PStr [])] \<and>
   ''CVSS_V3'' \<notin> set [''CRITICAL'', ''HIGH'', ''MEDIUM'', ''LOW'', ''UNKNOWN'']"
  by (simp add: normalize_advisory_def advisory_id_def example_lib_def is_ValueError_def
      value_simps)

text \<open>
  Claim C5, as the code has it. For an advisory that is normalised and whose severity
  array ends with a dictionary, the record's severity is the type label of the last
  entry that has one: the final entry's label when it has one, and otherwise the label
  the earlier entries left (\<open>UNKNOWN\<close> when none of them has one). Its \<open>cvss_score\<close> is
  the final entry's score as a float when \<open>float\<close> converts it and \<open>None\<close> otherwise.
\<close>

theorem normalize_advisory_last_severity:
  assumes "normalize_advisory L (PDict adv) = Inr r"
      and "map_of adv ''severity'' = Some (PList (es @ [PDict kvs]))"
  shows "map_of r ''severity'' =
           Some (case map_of kvs ''type'' of
                   Some t \<Rightarrow> t
                 | None \<Rightarrow>
                     last (PStr ''UNKNOWN'' # concat (map (\<lambda>s. case s of
                             PDict kvs' \<Rightarrow> (case map_of kvs' ''type'' of Some t \<Rightarrow> [t] | None \<Rightarrow> [])
                           | _ \<Rightarrow> []) es))) \<and>
         map_of r ''cvss_score'' =
           Some (case py_float L (case map_of kvs ''score'' of Some x \<Rightarrow> x | None \<Rightarrow> PNone) of
                   Inr f \<Rightarrow> PFloat f
                 | Inl e \<Rightarrow> PNone)"
proof -
  from assms(1) obtain sev_value sev_entries severity score where n:
    "py_get (PDict adv) ''severity'' (PList []) = Inr sev_value"
    "py_iter sev_value = Inr sev_entries"
    "severity_loop L (PStr ''UNKNOWN'', None) sev_entries = Inr (severity, score)"
    "map_of r ''severity'' = Some severity"
    "map_of r ''cvss_score'' = Some (case score of None \<Rightarrow> PNone | Some f \<Rightarrow> PFloat f)"
    by (rule normalize_advisory_InrD)
  from n(1,2) assms(2) have "sev_entries = es @ [PDict kvs]"
    by (auto simp: py_get_def py_iter_def)
  with n(3) severity_loop_final obtain sev1 sc1 where f:
    "severity_loop L (PStr ''UNKNOWN'', None) es = Inr (sev1, sc1)"
    "severity = (case map_of kvs ''type'' of Some t \<Rightarrow> t | None \<Rightarrow> sev1)"
    "score = (case py_float L (case map_of kvs ''score'' of Some x \<Rightarrow> x | None \<Rightarrow> PNone) of
                 Inr f \<Rightarrow> Some f | Inl e \<Rightarrow> None)"
    by blast
  from severity_loop_labels [OF f(1)] have sev1:
    "sev1 = last (PStr ''UNKNOWN'' # concat (map (\<lambda>s. case s of
                             PDict kvs' \<Rightarrow> (case map_of kvs' ''type'' of Some t \<Rightarrow> [t] | None \<Rightarrow> [])
                           | _ \<Rightarrow> []) es))" .
  have A: "map_of r ''severity'' =
           Some (case map_of kvs ''type'' of
                   Some t \<Rightarrow> t
                 | None \<Rightarrow>
                     last (PStr ''UNKNOWN'' # concat (map (\<lambda>s. case s of
                             PDict kvs' \<Rightarrow> (case map_of kvs' ''type'' of Some t \<Rightarrow> [t] | None \<Rightarrow> [])
                           | _ \<Rightarrow> []) es)))"
    unfolding n(4) f(2) sev1 by (rule refl)
  have B: "map_of r ''cvss_score'' =
           Some (case py_float L (case map_of kvs ''score'' of Some x \<Rightarrow> x | None \<Rightarrow> PNone) of
                   Inr f \<Rightarrow> PFloat f
                 | Inl e \<Rightarrow> PNone)"
    unfolding n(5) f(3)
    by (cases "py_float L (case map_of kvs ''score'' of Some x \<Rightarrow> x | None \<Rightarrow> PNone)") simp_all
  from A B show ?thesis by (rule conjI)
qed

theorem normalize_advisory_last_severity_witness:
  "normalize_advisory example_lib
     (PDict [(''id'', PStr ''GHSA-1''), (''aliases'', PList [PStr ''CVE-1'']),
             (''severity'', PList [PDict [(''type'', PStr ''LOW''), (''score'', PStr ''7.5'')],
                                   PDict [(''type'', PStr ''CRITICAL''), (''score'', PStr ''9.8'')]])])
   = Inr [(''id'', PStr ''GHSA-1''), (''summary'', PStr []), (''severity'', PStr ''CRITICAL''),
          (''cvss_score'', PFloat ''9.8''), (''affected_range'', PStr []),
          (''fixed_versions'', PList []), (''reference_url'', PStr [])] \<and>
   normalize_advisory example_lib
     (PDict [(''id'', PStr ''GHSA-2''), (''aliases'', PList [PStr ''CVE-2'']),
             (''severity'', PList [PDict [(''type'', PStr ''CRITICAL''), (''score'', PStr ''9.8'')],
                                   PDict [(''type'', PStr ''LOW''), (''score'', PStr ''n/a'')]])])
   = Inr [(''id'', PStr ''GHSA-2''), (''summary'', PStr []), (''severity'', PStr ''LOW''),
          (''cvss_score'', PNone), (''affected_range'', PStr []),
          (''fixed_versions'', PList []), (''reference_url'', PStr [])]"
proof -
  let ?a1 = "[(''id'', PStr ''GHSA-1''), (''aliases'', PList [PStr ''CVE-1'']),
             (''severity'', PList [PDict [(''type'', PStr ''LOW''), (''score'', PStr ''7.5'')],
                                   PDict [(''type'', PStr ''CRITICAL''), (''score'', PStr ''9.8'')]])]"
  let ?r1 = "[(''id'', PStr ''GHSA-1''), (''summary'', PStr []), (''severity'', PStr ''CRITICAL''),
          (''cvss_score'', PFloat ''9.8''), (''affected_range'', PStr []),
          (''fixed_versions'', PList []), (''reference_url'', PStr [])]"
  let ?a2 = "[(''id'', PStr ''GHSA-2''), (''aliases'', PList [PStr ''CVE-2'']),
             (''severity'', PList [PDict [(''type'', PStr ''CRITICAL''), (''score'', PStr ''9.8'')],
                                   PDict [(''type'', PStr ''LOW''), (''score'', PStr ''n/a'')]])]"
  let ?r2 = "[(''id'', PStr ''GHSA-2''), (''summary'', PStr []), (''severity'', PStr ''LOW''),
          (''cvss_score'', PNone), (''affected_range'', PStr []),
          (''fixed_versions'', PList []), (''reference_url'', PStr [])]"
  have n1: "normalize_advisory example_lib (PDict ?a1) = Inr ?r1"
    by (simp add: normalize_advisory_def advisory_id_def example_lib_def is_ValueError_def
        value_simps)
  have n2: "normalize_advisory example_lib (PDict ?a2) = Inr ?r2"
    by (simp add: normalize_advisory_def advisory_id_def example_lib_def is_ValueError_def
        value_simps)
  have s1: "map_of ?a1 ''severity'' = Some (PList ([PDict [(''type'', PStr ''LOW''),
      (''score'', PStr ''7.5'')]] @ [PDict [(''type'', PStr ''CRITICAL''), (''score'', PStr ''9.8'')]]))"
    by simp
  have s2: "map_of ?a2 ''severity'' = Some (PList ([PDict [(''type'', PStr ''CRITICAL''),
      (''score'', PStr ''9.8'')]] @ [PDict [(''type'', PStr ''LOW''), (''score'', PStr ''n/a'')]]))"
    by simp
  note w1 = normalize_advisory_last_severity [OF n1 s1]
  note w2 = normalize_advisory_last_severity [OF n2 s2]
  from w1 w2 n1 n2 show ?thesis by blast
qed

text \<open>
  A final entry without a type label leaves the label of an earlier entry in place,
  while the score is the final entry's: \<open>s.get("type", severity)\<close> keeps the old value.
\<close>

theorem normalize_advisory_last_severity_counterexample:
  "normalize_advisory example_lib
     (PDict [(''id'', PStr ''GHSA-3''), (''aliases'', PList [PStr ''CVE-3'']),
             (''severity'', PList [PDict [(''type'', PStr ''LOW''), (''score'', PStr ''7.5'')],
                                   PDict [(''score'', PStr ''9.8'')]])])
   = Inr [(''id'', PStr ''GHSA-3''), (''summary'', PStr []), (''severity'', PStr ''LOW''),
          (''cvss_score'', PFloat ''9.8''), (''affected_range'', PStr []),
          (''fixed_versions'', PList []), (''reference_url'', PStr [])] \<and>
   map_of [(''score'', PStr ''9.8'' :: string pyval)] ''type'' \<noteq> Some (PStr ''LOW'')"
  by (simp add: normalize_advisory_def advisory_id_def example_lib_def is_ValueError_def
      value_simps)

subsection \<open>The identifier\<close>

text \<open>
  Claim C7. An advisory with an identifier and no aliases gets the empty string as
  its \<open>id\<close>: the conditional expression \<open>... if aliases else ""\<close> covers the whole
  \<open>v.get("id") or aliases[0]\<close>.
\<close>

theorem normalize_advisory_id_without_aliases:
  "normalize_advisory example_lib
     (PDict [(''id'', PStr ''OSV-2021-1''), (''summary'', PStr ''Heap overflow'')])
   = Inr [(''id'', PStr []), (''summary'', PStr ''Heap overflow''),
          (''severity'', PStr ''UNKNOWN''), (''cvss_score'', PNone),
          (''affected_range'', PStr []), (''fixed_versions'', PList []),
          (''reference_url'', PStr [])]"
  by (simp add: normalize_advisory_def advisory_id_def example_lib_def value_simps)

lemma advisory_id_empty_aliases:
  "\<not> py_truthy L aliases \<Longrightarrow> advisory_id L v aliases = Inr (PStr [])"
  by (simp add: advisory_id_def)

subsection \<open>Retries\<close>

lemma request_loop_done: "request_loop post payload resp st 3 = (After_loop resp, st)"
  by (subst request_loop.simps) simp

lemma request_loop_retry:
  assumes "tries < 3" "post (posts st) payload = Inr r"
      and "status_code r = 429 \<or> status_code r = 503"
  shows "request_loop post payload resp st tries =
           request_loop post payload (Some r)
             (st\<lparr>posts := posts st + 1, sleeps := sleeps st @ [2 ^ tries]\<rparr>) (tries + 1)"
  using assms by (subst request_loop.simps) (auto simp: Let_def)

text \<open>
  The first response, when it needs no retry and is not a 400: an error status is
  raised by \<open>raise_for_status\<close> and nothing is cached; otherwise the body is normalised.
\<close>

lemma lookup_first_response:
  assumes "cache st (py_lower ecosystem, py_lower name, version) = None"
      and "name \<noteq> []" "version \<noteq> []" "version \<noteq> ''*''"
      and "post (posts st)
             (PDict [(''version'', PStr version),
                     (''package'', PDict [(''ecosystem'', PStr ecosystem),
                                          (''name'', PStr name)])]) = Inr r"
      and "status_code r \<noteq> 400" "status_code r \<noteq> 429" "status_code r \<noteq> 503"
  shows "lookup L post st ecosystem name version =
           (let st' = st\<lparr>posts := posts st + 1\<rparr>
            in if 400 \<le> status_code r \<and> status_code r < 600
               then (Inl (HTTPError (status_code r)), st')
               else case normalize_payload L (json_body r) of
                      Inl e \<Rightarrow> (Inl e, st')
                    | Inr vulns \<Rightarrow>
                        (Inr vulns,
                         st'\<lparr>cache := (cache st)((py_lower ecosystem, py_lower name, version)
                                          := Some vulns)\<rparr>))"
  using assms
  by (subst lookup_def, subst request_loop.simps)
     (simp add: Let_def raise_for_status_def split: sum.splits)

text \<open>
  Claim C1. When the service answers 429 or 503 three times in a row, \<open>lookup\<close>
  sleeps 1, 2 and 4 seconds; the loop then ends without \<open>raise_for_status\<close>, and the
  body of the last response is read as if it were a result: what \<open>lookup\<close> returns or
  raises is what normalising that body gives, and a list that comes out is cached.
\<close>

theorem lookup_retries_exhausted:
  assumes "cache st (py_lower ecosystem, py_lower name, version) = None"
      and "name \<noteq> []" "version \<noteq> []" "version \<noteq> ''*''"
      and "payload = PDict [(''version'', PStr version),
                            (''package'', PDict [(''ecosystem'', PStr ecosystem),
                                                 (''name'', PStr name)])]"
      and "post (posts st) payload = Inr r0" "status_code r0 = 429 \<or> status_code r0 = 503"
      and "post (posts st + 1) payload = Inr r1" "status_code r1 = 429 \<or> status_code r1 = 503"
      and "post (posts st + 2) payload = Inr r2" "status_code r2 = 429 \<or> status_code r2 = 503"
  shows "lookup L post st ecosystem name version =
           (let st' = st\<lparr>posts := posts st + 3, sleeps := sleeps st @ [1, 2, 4]\<rparr>
            in case normalize_payload L (json_body r2) of
                 Inl e \<Rightarrow> (Inl e, st')
               | Inr vulns \<Rightarrow>
                   (Inr vulns,
                    st'\<lparr>cache := (cache st)((py_lower ecosystem, py_lower name, version)
                                     := Some vulns)\<rparr>))"
proof -
  let ?st1 = "st\<lparr>posts := posts st + 1, sleeps := sleeps st @ [2 ^ 0]\<rparr>"
  let ?st2 = "?st1\<lparr>posts := posts ?st1 + 1, sleeps := sleeps ?st1 @ [2 ^ 1]\<rparr>"
  let ?st3 = "?st2\<lparr>posts := posts ?st2 + 1, sleeps := sleeps ?st2 @ [2 ^ 2]\<rparr>"
  have "request_loop post payload None st 0 = request_loop post payload (Some r0) ?st1 (0 + 1)"
    using assms(6,7) by (intro request_loop_retry) simp_all
  also have "\<dots> = request_loop post payload (Some r1) ?st2 (1 + 1)"
    using assms(8,9) by (simp only: add_0) (intro request_loop_retry, simp_all)
  also have "\<dots> = request_loop post payload (Some r2) ?st3 (2 + 1)"
    using assms(10,11)
    by (simp only: one_add_one) (intro request_loop_retry, simp_all add: add.commute)
  also have "\<dots> = (After_loop (Some r2), ?st3)"
    by (simp add: request_loop_done)
  finally have loop: "request_loop post payload None st 0 = (After_loop (Some r2), ?st3)" .
  have st3: "?st3 = st\<lparr>posts := posts st + 3, sleeps := sleeps st @ [1, 2, 4]\<rparr>"
    by simp
  show ?thesis
    using assms(1-4) loop
    unfolding lookup_def Let_def assms(5) [symmetric] st3
    by (simp split: sum.splits)
qed

theorem lookup_retries_exhausted_witness:
  "lookup example_lib
     (\<lambda>n payload. Inr \<lparr>status_code = 429,
                        json_body = Inr (PDict [(''message'', PStr ''Too Many Requests'')])\<rparr>)
     \<lparr>cache = (\<lambda>key. None), posts = 0, sleeps = []\<rparr> ''PyPI'' ''flask'' ''2.0.0''
   = (Inr [],
      \<lparr>cache = (\<lambda>key. None)((''pypi'', ''flask'', ''2.0.0'') := Some []),
       posts = 3, sleeps = [1, 2, 4]\<rparr>)"
proof -
  let ?r = "\<lparr>status_code = 429,
             json_body = Inr (PDict [(''message'', PStr ''Too Many Requests'')])\<rparr>
              :: string response"
  let ?st = "\<lparr>cache = (\<lambda>key. None), posts = 0, sleeps = []\<rparr> :: string lookup_state"
  have low: "py_lower ''PyPI'' = ''pypi''" "py_lower ''flask'' = ''flask''"
    by (simp_all add: py_lower_def lower_char_def)
  have np: "normalize_payload example_lib (json_body ?r) = Inr []"
    by (simp add: normalize_payload_def value_simps)
  have "lookup example_lib (\<lambda>n payload. Inr ?r) ?st ''PyPI'' ''flask'' ''2.0.0'' =
           (let st' = ?st\<lparr>posts := posts ?st + 3, sleeps := sleeps ?st @ [1, 2, 4]\<rparr>
            in case normalize_payload example_lib (json_body ?r) of
                 Inl e \<Rightarrow> (Inl e, st')
               | Inr vulns \<Rightarrow>
                   (Inr vulns,
                    st'\<lparr>cache := (cache ?st)((py_lower ''PyPI'', py_lower ''flask'', ''2.0.0'')
                                     := Some vulns)\<rparr>))"
    by (rule lookup_retries_exhausted [where ?r0.0 = ?r and ?r1.0 = ?r]) simp_all
  then show ?thesis
    unfolding np low by (simp add: Let_def)
qed

end
